theory Spec2Isabelle
  imports Main "HOL-Library.Word" "HOL-Library.Signed_Division"
begin

section \<open>Lexer (frontend/lexer/lexer.go)\<close>

text \<open>
  The lexer works on the bytes of a Go string. A byte is a \<^typ>\<open>char\<close>, the input a
  \<^typ>\<open>string\<close>. Positions, lines and columns are Go \<open>int\<close>s that only ever count
  upwards from 0 or 1; they are modelled as \<^typ>\<open>nat\<close>.
\<close>

datatype TokenType =
    ILLEGAL | EOF
  | IDENT | INT_TOK | STRING
  | ASSIGN | EQ | NOT_EQ | PLUS | MINUS | BANG | ASTERISK | SLASH | LT | GT | LE | GE
  | COMMA | SEMICOLON | LPAREN | RPAREN | LBRACE | RBRACE
  | SUN | SUNA | AGAR | MAGAR | GLOW | FHEK | YAS | NAH | GRIND

text \<open>The string constant behind each token type, as \<open>%s\<close> prints it.\<close>

fun tokenTypeString :: "TokenType \<Rightarrow> string" where
  "tokenTypeString ILLEGAL = ''ILLEGAL''"
| "tokenTypeString EOF = ''EOF''"
| "tokenTypeString IDENT = ''IDENT''"
| "tokenTypeString INT_TOK = ''INT''"
| "tokenTypeString STRING = ''STRING''"
| "tokenTypeString ASSIGN = ''=''"
| "tokenTypeString EQ = ''==''"
| "tokenTypeString NOT_EQ = ''!=''"
| "tokenTypeString PLUS = ''+''"
| "tokenTypeString MINUS = ''-''"
| "tokenTypeString BANG = ''!''"
| "tokenTypeString ASTERISK = ''*''"
| "tokenTypeString SLASH = ''/''"
| "tokenTypeString LT = ''<''"
| "tokenTypeString GT = ''>''"
| "tokenTypeString LE = ''<=''"
| "tokenTypeString GE = ''>=''"
| "tokenTypeString COMMA = '',''"
| "tokenTypeString SEMICOLON = '';''"
| "tokenTypeString LPAREN = ''(''"
| "tokenTypeString RPAREN = '')''"
| "tokenTypeString LBRACE = ''{''"
| "tokenTypeString RBRACE = ''}''"
| "tokenTypeString SUN = ''SUN''"
| "tokenTypeString SUNA = ''SUNA''"
| "tokenTypeString AGAR = ''AGAR''"
| "tokenTypeString MAGAR = ''MAGAR''"
| "tokenTypeString GLOW = ''GLOW''"
| "tokenTypeString FHEK = ''FHEK''"
| "tokenTypeString YAS = ''YAS''"
| "tokenTypeString NAH = ''NAH''"
| "tokenTypeString GRIND = ''GRIND''"

record Token =
  Type :: TokenType
  Literal :: string
  Line :: nat
  Column :: nat

record Lexer =
  input :: string
  position :: nat
  readPosition :: nat
  ch :: char
  line :: nat
  column :: nat

definition readChar :: "Lexer \<Rightarrow> Lexer" where
  "readChar lx =
     (let c = (if length (input lx) \<le> readPosition lx then CHR 0x00
               else input lx ! readPosition lx);
          lx1 = lx\<lparr>ch := c, position := readPosition lx, readPosition := readPosition lx + 1\<rparr>
      in if c = CHR 0x0A then lx1\<lparr>line := line lx1 + 1, column := 1\<rparr>
         else if c \<noteq> CHR 0x00 then lx1\<lparr>column := column lx1 + 1\<rparr>
         else lx1)"

definition New :: "string \<Rightarrow> Lexer" where
  "New inp = readChar \<lparr>input = inp, position = 0, readPosition = 0, ch = CHR 0x00,
                        line = 1, column = 1\<rparr>"

definition peekChar :: "Lexer \<Rightarrow> char" where
  "peekChar lx = (if length (input lx) \<le> readPosition lx then CHR 0x00
                  else input lx ! readPosition lx)"

text \<open>
  \<open>unicode.IsLetter\<close> and \<open>unicode.IsDigit\<close> are applied to \<open>rune(ch)\<close> for a byte
  \<open>ch\<close>, that is to a code point of Latin-1. There the letters are A-Z, a-z, U+00AA,
  U+00B5, U+00BA, U+00C0-U+00D6, U+00D8-U+00F6 and U+00F8-U+00FF, and the decimal
  digits are 0-9.
\<close>

definition unicodeIsLetter :: "char \<Rightarrow> bool" where
  "unicodeIsLetter c =
     (let n = (of_char c :: nat)
      in (65 \<le> n \<and> n \<le> 90) \<or> (97 \<le> n \<and> n \<le> 122) \<or> n = 170 \<or> n = 181 \<or> n = 186
         \<or> (192 \<le> n \<and> n \<le> 214) \<or> (216 \<le> n \<and> n \<le> 246) \<or> (248 \<le> n \<and> n \<le> 255))"

definition isLetter :: "char \<Rightarrow> bool" where
  "isLetter c = (unicodeIsLetter c \<or> c = CHR ''_'')"

definition isDigit :: "char \<Rightarrow> bool" where
  "isDigit c = (let n = (of_char c :: nat) in 48 \<le> n \<and> n \<le> 57)"

fun lookupIdent :: "string \<Rightarrow> TokenType" where
  "lookupIdent ident =
     (if ident = ''sun'' then SUN
      else if ident = ''suna'' then SUNA
      else if ident = ''agar'' then AGAR
      else if ident = ''magar'' then MAGAR
      else if ident = ''glow'' then GLOW
      else if ident = ''fhek'' then FHEK
      else if ident = ''yas'' then YAS
      else if ident = ''nah'' then NAH
      else if ident = ''grind'' then GRIND
      else IDENT)"

definition newToken :: "TokenType \<Rightarrow> string \<Rightarrow> nat \<Rightarrow> nat \<Rightarrow> Token" where
  "newToken tokenType literal ln col =
     \<lparr>Type = tokenType, Literal = literal, Line = ln, Column = col\<rparr>"

text \<open>
  Go's conversion \<open>string(b)\<close> of a byte yields the UTF-8 encoding of the code point
  \<open>b\<close>: one byte below 0x80, two bytes from there on.
\<close>

definition byteString :: "char \<Rightarrow> string" where
  "byteString c =
     (let n = (of_char c :: nat)
      in if n < 128 then [c] else [char_of (192 + n div 64), char_of (128 + n mod 64)])"

text \<open>The slice \<open>s[i:j]\<close>; \<open>slice_bounds\<close> below shows that its bounds are in range here.\<close>

definition slice :: "string \<Rightarrow> nat \<Rightarrow> nat \<Rightarrow> string" where
  "slice s i j = take (j - i) (drop i s)"

text \<open>
  The measure of every loop of the lexer: the bytes not yet read, plus one while the
  current byte is not the end marker.
\<close>

definition pending :: "Lexer \<Rightarrow> nat" where
  "pending lx = (if ch lx = CHR 0x00 then 0 else 1) + (length (input lx) - readPosition lx)"

lemma pending_readChar_le: "pending (readChar lx) \<le> pending lx"
  by (auto simp: pending_def readChar_def Let_def)

lemma pending_readChar_less: "ch lx \<noteq> CHR 0x00 \<Longrightarrow> pending (readChar lx) < pending lx"
  by (auto simp: pending_def readChar_def Let_def)

function skipWhitespace :: "Lexer \<Rightarrow> Lexer" where
  "skipWhitespace lx =
     (if ch lx = CHR '' '' \<or> ch lx = CHR 0x09 \<or> ch lx = CHR 0x0A \<or> ch lx = CHR 0x0D
      then skipWhitespace (readChar lx) else lx)"
  by pat_completeness auto
termination
  by (relation "measure pending") (auto intro: pending_readChar_less)

function skipCommentLoop :: "Lexer \<Rightarrow> Lexer" where
  "skipCommentLoop lx =
     (if ch lx \<noteq> CHR 0x0A \<and> ch lx \<noteq> CHR 0x00 then skipCommentLoop (readChar lx) else lx)"
  by pat_completeness auto
termination
  by (relation "measure pending") (auto intro: pending_readChar_less)

definition skipComment :: "Lexer \<Rightarrow> Lexer" where
  "skipComment lx =
     (if ch lx = CHR ''/'' \<and> peekChar lx = CHR ''/'' then skipCommentLoop lx else lx)"

function readIdentifierLoop :: "Lexer \<Rightarrow> Lexer" where
  "readIdentifierLoop lx =
     (if isLetter (ch lx) \<or> isDigit (ch lx) then readIdentifierLoop (readChar lx) else lx)"
  by pat_completeness auto
termination
  by (relation "measure pending")
     (auto intro!: pending_readChar_less simp: isLetter_def isDigit_def unicodeIsLetter_def)

definition readIdentifier :: "Lexer \<Rightarrow> string \<times> Lexer" where
  "readIdentifier lx =
     (let start = position lx; lx1 = readIdentifierLoop lx
      in (slice (input lx1) start (position lx1), lx1))"

function readNumberLoop :: "Lexer \<Rightarrow> Lexer" where
  "readNumberLoop lx = (if isDigit (ch lx) then readNumberLoop (readChar lx) else lx)"
  by pat_completeness auto
termination
  by (relation "measure pending") (auto intro!: pending_readChar_less simp: isDigit_def)

definition readNumber :: "Lexer \<Rightarrow> string \<times> Lexer" where
  "readNumber lx =
     (let start = position lx; lx1 = readNumberLoop lx
      in (slice (input lx1) start (position lx1), lx1))"

function readStringLoop :: "Lexer \<Rightarrow> Lexer" where
  "readStringLoop lx =
     (if ch lx \<noteq> CHR 0x22 \<and> ch lx \<noteq> CHR 0x00 then readStringLoop (readChar lx) else lx)"
  by pat_completeness auto
termination
  by (relation "measure pending") (auto intro: pending_readChar_less)

definition readString :: "Lexer \<Rightarrow> string \<times> Lexer" where
  "readString lx =
     (let lx1 = readChar lx;
          start = position lx1;
          lx2 = readStringLoop lx1
      in if ch lx2 = CHR 0x00 then (slice (input lx2) start (position lx2), lx2)
         else (slice (input lx2) start (position lx2), readChar lx2))"

declare skipWhitespace.simps [simp del] skipCommentLoop.simps [simp del]
  readIdentifierLoop.simps [simp del] readNumberLoop.simps [simp del]
  readStringLoop.simps [simp del]


text \<open>
  \<open>NextToken\<close> returns the token and the lexer after it. \<open>single\<close> is a branch
  \<open>tok = newToken(ty, string(l.ch), l.line, l.column)\<close> followed by the common tail
  \<open>l.readChar(); return tok\<close>; \<open>double\<close> is the branch of the source for a
  two-character operator, followed by the same tail.
\<close>

definition single :: "TokenType \<Rightarrow> Lexer \<Rightarrow> Token \<times> Lexer" where
  "single ty lx = (newToken ty (byteString (ch lx)) (line lx) (column lx), readChar lx)"

definition double :: "TokenType \<Rightarrow> Lexer \<Rightarrow> Token \<times> Lexer" where
  "double ty lx =
     (let c = ch lx; lx1 = readChar lx
      in (\<lparr>Type = ty, Literal = byteString c @ byteString (ch lx1),
           Line = line lx1, Column = column lx1\<rparr>, readChar lx1))"

lemma readPosition_readChar: "readPosition (readChar lx) = readPosition lx + 1"
  by (simp add: readChar_def Let_def)

lemma input_readChar: "input (readChar lx) = input lx"
  by (simp add: readChar_def Let_def)

lemma readPosition_skipCommentLoop: "readPosition lx \<le> readPosition (skipCommentLoop lx)"
proof (induction lx rule: skipCommentLoop.induct)
  case (1 lx)
  show ?case
  proof (cases "ch lx \<noteq> CHR 0x0A \<and> ch lx \<noteq> CHR 0x00")
    case True
    then have "readPosition (readChar lx) \<le> readPosition (skipCommentLoop lx)"
      using "1.IH" by (simp add: skipCommentLoop.simps [of lx])
    then show ?thesis by (simp add: readPosition_readChar)
  next
    case False
    then show ?thesis by (auto simp: skipCommentLoop.simps [of lx])
  qed
qed

lemma input_skipCommentLoop: "input (skipCommentLoop lx) = input lx"
proof (induction lx rule: skipCommentLoop.induct)
  case (1 lx)
  then show ?case
    by (cases "ch lx \<noteq> CHR 0x0A \<and> ch lx \<noteq> CHR 0x00")
       (auto simp: skipCommentLoop.simps [of lx] input_readChar)
qed

lemma readPosition_skipComment: "readPosition lx \<le> readPosition (skipComment lx)"
  by (simp add: skipComment_def readPosition_skipCommentLoop)

lemma input_skipComment: "input (skipComment lx) = input lx"
  by (simp add: skipComment_def input_skipCommentLoop)

lemma readPosition_skipWhitespace: "readPosition lx \<le> readPosition (skipWhitespace lx)"
proof (induction lx rule: skipWhitespace.induct)
  case (1 lx)
  show ?case
  proof (cases "ch lx = CHR '' '' \<or> ch lx = CHR 0x09 \<or> ch lx = CHR 0x0A \<or> ch lx = CHR 0x0D")
    case True
    then have "readPosition (readChar lx) \<le> readPosition (skipWhitespace lx)"
      using "1.IH" by (simp add: skipWhitespace.simps [of lx])
    then show ?thesis by (simp add: readPosition_readChar)
  next
    case False
    then show ?thesis by (simp add: skipWhitespace.simps [of lx])
  qed
qed

lemma input_skipWhitespace: "input (skipWhitespace lx) = input lx"
proof (induction lx rule: skipWhitespace.induct)
  case (1 lx)
  then show ?case
    by (cases "ch lx = CHR '' '' \<or> ch lx = CHR 0x09 \<or> ch lx = CHR 0x0A \<or> ch lx = CHR 0x0D")
       (simp_all add: skipWhitespace.simps [of lx] input_readChar)
qed

lemma peekChar_less: "peekChar lx \<noteq> CHR 0x00 \<Longrightarrow> readPosition lx < length (input lx)"
  by (simp add: peekChar_def split: if_splits)

lemma NextToken_termination_step:
  assumes "lx1 = skipComment (skipWhitespace lx)" and "peekChar lx1 = CHR ''/''"
  shows "length (input (skipComment (readChar lx1))) - readPosition (skipComment (readChar lx1))
         < length (input lx) - readPosition lx"
proof -
  have a: "readPosition lx1 < length (input lx1)"
    using assms(2) by (intro peekChar_less) simp
  have b: "input lx1 = input lx"
    by (simp add: assms(1) input_skipComment input_skipWhitespace)
  have c: "readPosition lx \<le> readPosition lx1"
    unfolding assms(1)
    by (rule order_trans [OF readPosition_skipWhitespace readPosition_skipComment])
  have d: "readPosition lx1 + 1 \<le> readPosition (skipComment (readChar lx1))"
    using readPosition_skipComment [of "readChar lx1"] by (simp add: readPosition_readChar)
  have e: "input (skipComment (readChar lx1)) = input lx"
    by (simp add: input_skipComment input_readChar b)
  show ?thesis using a b c d e by simp
qed

function NextToken :: "Lexer \<Rightarrow> Token \<times> Lexer" where
  "NextToken lx0 =
     (let lx = skipComment (skipWhitespace lx0)
      in if ch lx = CHR ''='' then
           (if peekChar lx = CHR ''='' then double EQ lx else single ASSIGN lx)
         else if ch lx = CHR ''!'' then
           (if peekChar lx = CHR ''='' then double NOT_EQ lx else single BANG lx)
         else if ch lx = CHR ''+'' then single PLUS lx
         else if ch lx = CHR ''-'' then single MINUS lx
         else if ch lx = CHR ''*'' then single ASTERISK lx
         else if ch lx = CHR ''/'' then
           (if peekChar lx = CHR ''/'' then NextToken (skipComment (readChar lx))
            else single SLASH lx)
         else if ch lx = CHR ''<'' then
           (if peekChar lx = CHR ''='' then double LE lx else single LT lx)
         else if ch lx = CHR ''>'' then
           (if peekChar lx = CHR ''='' then double GE lx else single GT lx)
         else if ch lx = CHR '','' then single COMMA lx
         else if ch lx = CHR '';'' then single SEMICOLON lx
         else if ch lx = CHR ''('' then single LPAREN lx
         else if ch lx = CHR '')'' then single RPAREN lx
         else if ch lx = CHR ''{'' then single LBRACE lx
         else if ch lx = CHR ''}'' then single RBRACE lx
         else if ch lx = CHR 0x22 then
           (let (lit, lx1) = readString lx
            in (\<lparr>Type = STRING, Literal = lit, Line = line lx1, Column = column lx1\<rparr>, lx1))
         else if ch lx = CHR 0x00 then
           (\<lparr>Type = EOF, Literal = [], Line = line lx, Column = column lx\<rparr>, readChar lx)
         else if isLetter (ch lx) then
           (let (lit, lx1) = readIdentifier lx
            in (\<lparr>Type = lookupIdent lit, Literal = lit, Line = line lx1, Column = column lx1\<rparr>,
                lx1))
         else if isDigit (ch lx) then
           (let (lit, lx1) = readNumber lx
            in (\<lparr>Type = INT_TOK, Literal = lit, Line = line lx1, Column = column lx1\<rparr>, lx1))
         else single ILLEGAL lx)"
  by pat_completeness auto
termination
  by (relation "measure (\<lambda>lx. length (input lx) - readPosition lx)")
     (auto intro: NextToken_termination_step)

declare NextToken.simps [simp del]


subsection \<open>Every lexer operation is a run of \<open>readChar\<close>\<close>

definition steps :: "Lexer \<Rightarrow> Lexer \<Rightarrow> bool" where
  "steps lx lx' = (\<exists>k. lx' = (readChar ^^ k) lx)"

definition steps1 :: "Lexer \<Rightarrow> Lexer \<Rightarrow> bool" where
  "steps1 lx lx' = (\<exists>k. lx' = (readChar ^^ Suc k) lx)"

lemma steps_refl: "steps lx lx"
  unfolding steps_def by (rule exI [of _ 0]) simp

lemma steps1_readChar: "steps1 lx (readChar lx)"
  unfolding steps1_def by (rule exI [of _ 0]) simp

lemma steps1_steps: "steps1 a b \<Longrightarrow> steps a b"
  unfolding steps_def steps1_def by blast

lemma steps_trans: "steps a b \<Longrightarrow> steps b c \<Longrightarrow> steps a c"
  unfolding steps_def by (metis funpow_add comp_apply add.commute)

lemma steps_steps1: "steps a b \<Longrightarrow> steps1 b c \<Longrightarrow> steps1 a c"
  unfolding steps_def steps1_def by (metis funpow_add comp_apply add_Suc)

lemma steps1_steps_trans: "steps1 a b \<Longrightarrow> steps b c \<Longrightarrow> steps1 a c"
  unfolding steps_def steps1_def by (metis funpow_add comp_apply add_Suc_right add.commute)

lemma steps_readChar: "steps lx (readChar lx)"
  by (rule steps1_steps [OF steps1_readChar])

lemma steps_skipWhitespace: "steps lx (skipWhitespace lx)"
proof (induction lx rule: skipWhitespace.induct)
  case (1 lx)
  show ?case
  proof (cases "ch lx = CHR '' '' \<or> ch lx = CHR 0x09 \<or> ch lx = CHR 0x0A \<or> ch lx = CHR 0x0D")
    case True
    then have "steps (readChar lx) (skipWhitespace lx)"
      using "1.IH" by (simp add: skipWhitespace.simps [of lx])
    then show ?thesis by (rule steps_trans [OF steps_readChar])
  next
    case False
    then show ?thesis by (simp add: skipWhitespace.simps [of lx] steps_refl)
  qed
qed

lemma steps_skipCommentLoop: "steps lx (skipCommentLoop lx)"
proof (induction lx rule: skipCommentLoop.induct)
  case (1 lx)
  show ?case
  proof (cases "ch lx \<noteq> CHR 0x0A \<and> ch lx \<noteq> CHR 0x00")
    case True
    then have "steps (readChar lx) (skipCommentLoop lx)"
      using "1.IH" by (simp add: skipCommentLoop.simps [of lx])
    then show ?thesis by (rule steps_trans [OF steps_readChar])
  next
    case False
    then show ?thesis by (auto simp: skipCommentLoop.simps [of lx] steps_refl)
  qed
qed

lemma steps_skipComment: "steps lx (skipComment lx)"
  by (simp add: skipComment_def steps_skipCommentLoop steps_refl)

lemma steps_readStringLoop: "steps lx (readStringLoop lx)"
proof (induction lx rule: readStringLoop.induct)
  case (1 lx)
  show ?case
  proof (cases "ch lx \<noteq> CHR 0x22 \<and> ch lx \<noteq> CHR 0x00")
    case True
    then have "steps (readChar lx) (readStringLoop lx)"
      using "1.IH" by (simp add: readStringLoop.simps [of lx])
    then show ?thesis by (rule steps_trans [OF steps_readChar])
  next
    case False
    then show ?thesis by (auto simp: readStringLoop.simps [of lx] steps_refl)
  qed
qed

lemma steps_readIdentifierLoop: "steps lx (readIdentifierLoop lx)"
proof (induction lx rule: readIdentifierLoop.induct)
  case (1 lx)
  show ?case
  proof (cases "isLetter (ch lx) \<or> isDigit (ch lx)")
    case True
    then have "steps (readChar lx) (readIdentifierLoop lx)"
      using "1.IH" by (simp add: readIdentifierLoop.simps [of lx])
    then show ?thesis by (rule steps_trans [OF steps_readChar])
  next
    case False
    then show ?thesis by (auto simp: readIdentifierLoop.simps [of lx] steps_refl)
  qed
qed

lemma steps_readNumberLoop: "steps lx (readNumberLoop lx)"
proof (induction lx rule: readNumberLoop.induct)
  case (1 lx)
  show ?case
  proof (cases "isDigit (ch lx)")
    case True
    then have "steps (readChar lx) (readNumberLoop lx)"
      using "1.IH" by (simp add: readNumberLoop.simps [of lx])
    then show ?thesis by (rule steps_trans [OF steps_readChar])
  next
    case False
    then show ?thesis by (auto simp: readNumberLoop.simps [of lx] steps_refl)
  qed
qed

lemma steps1_single: "steps1 lx (snd (single ty lx))"
  by (simp add: single_def steps1_readChar)

lemma steps1_double: "steps1 lx (snd (double ty lx))"
  by (simp add: double_def Let_def steps1_steps_trans [OF steps1_readChar steps_readChar])

lemma steps1_readString: "steps1 lx (snd (readString lx))"
proof -
  have a: "steps1 lx (readStringLoop (readChar lx))"
    by (rule steps1_steps_trans [OF steps1_readChar steps_readStringLoop])
  then have "steps1 lx (readChar (readStringLoop (readChar lx)))"
    by (rule steps1_steps_trans [OF _ steps_readChar])
  with a show ?thesis by (simp add: readString_def Let_def)
qed

lemma steps1_readIdentifier: "isLetter (ch lx) \<Longrightarrow> steps1 lx (snd (readIdentifier lx))"
  by (simp add: readIdentifier_def Let_def readIdentifierLoop.simps [of lx]
      steps1_steps_trans [OF steps1_readChar steps_readIdentifierLoop])

lemma steps1_readNumber: "isDigit (ch lx) \<Longrightarrow> steps1 lx (snd (readNumber lx))"
  by (simp add: readNumber_def Let_def readNumberLoop.simps [of lx]
      steps1_steps_trans [OF steps1_readChar steps_readNumberLoop])

lemma steps1_NextToken: "steps1 lx0 (snd (NextToken lx0))"
proof (induction lx0 rule: NextToken.induct)
  case (1 lx0)
  define lx where "lx = skipComment (skipWhitespace lx0)"
  have pre: "steps lx0 lx"
    unfolding lx_def by (rule steps_trans [OF steps_skipWhitespace steps_skipComment])
  have rec: "ch lx = CHR ''/'' \<Longrightarrow> peekChar lx = CHR ''/''
      \<Longrightarrow> steps1 lx (snd (NextToken (skipComment (readChar lx))))"
  proof -
    assume a: "ch lx = CHR ''/''" "peekChar lx = CHR ''/''"
    have "steps1 (skipComment (readChar lx)) (snd (NextToken (skipComment (readChar lx))))"
      using a by (intro "1.IH") (simp_all add: lx_def)
    then have "steps (skipComment (readChar lx)) (snd (NextToken (skipComment (readChar lx))))"
      by (rule steps1_steps)
    with steps_skipComment have "steps (readChar lx) (snd (NextToken (skipComment (readChar lx))))"
      by (rule steps_trans)
    with steps1_readChar show ?thesis by (rule steps1_steps_trans)
  qed
  have "steps1 lx (snd (NextToken lx0))"
    unfolding NextToken.simps [of lx0] lx_def [symmetric] Let_def
    by (simp add: steps1_single steps1_double steps1_readString steps1_readIdentifier
        steps1_readNumber steps1_readChar rec split_beta)
  with pre show ?case by (rule steps_steps1)
qed

lemma NextToken_EOF_input: "ch lx = CHR 0x00 \<Longrightarrow>
  NextToken lx = (\<lparr>Type = EOF, Literal = [], Line = line lx, Column = column lx\<rparr>, readChar lx)"
  by (simp add: NextToken.simps [of lx] skipWhitespace.simps [of lx] skipComment_def Let_def)

lemma steps_pending: "steps a b \<Longrightarrow> pending b \<le> pending a"
proof -
  have "pending ((readChar ^^ k) a) \<le> pending a" for k
    by (induction k) (auto intro: order_trans [OF pending_readChar_le])
  then show "steps a b \<Longrightarrow> pending b \<le> pending a"
    by (auto simp: steps_def)
qed

lemma steps1_pending: "steps1 a b \<Longrightarrow> ch a \<noteq> CHR 0x00 \<Longrightarrow> pending b < pending a"
proof -
  assume "steps1 a b" and nz: "ch a \<noteq> CHR 0x00"
  then obtain k where "b = (readChar ^^ Suc k) a"
    by (auto simp: steps1_def)
  then have "b = (readChar ^^ k) (readChar a)"
    by (simp add: funpow_swap1)
  then have "pending b \<le> pending (readChar a)"
    by (intro steps_pending) (auto simp: steps_def)
  with pending_readChar_less [OF nz] show ?thesis by simp
qed

lemma steps_input: "steps a b \<Longrightarrow> input b = input a"
proof -
  have "input ((readChar ^^ k) a) = input a" for k
    by (induction k) (simp_all add: input_readChar)
  then show "steps a b \<Longrightarrow> input b = input a"
    by (auto simp: steps_def)
qed

lemma steps1_readPosition: "steps1 a b \<Longrightarrow> readPosition a < readPosition b"
proof -
  have "readPosition ((readChar ^^ k) a) = readPosition a + k" for k
    by (induction k) (simp_all add: readPosition_readChar)
  then show "steps1 a b \<Longrightarrow> readPosition a < readPosition b"
    by (auto simp: steps1_def simp del: funpow.simps)
qed

lemma pending_NextToken_le: "pending (snd (NextToken lx)) \<le> pending lx"
  by (rule steps_pending [OF steps1_steps [OF steps1_NextToken]])

lemma pending_NextToken_less:
  assumes "Type (fst (NextToken lx)) \<noteq> EOF"
  shows "pending (snd (NextToken lx)) < pending lx"
proof -
  have "ch lx \<noteq> CHR 0x00"
    using assms by (auto simp: NextToken_EOF_input)
  with steps1_NextToken show ?thesis by (rule steps1_pending)
qed


subsection \<open>The states of the lexer\<close>

text \<open>
  Every lexer is made by \<open>New\<close> and changed by \<open>readChar\<close> only, so \<open>readPosition\<close> is
  one past \<open>position\<close> and \<open>ch\<close> is the byte at \<open>position\<close>, or the end marker beyond
  the input. \<open>lexerAfter lx n\<close> is the lexer after \<open>n\<close> calls of \<open>NextToken\<close>.
\<close>

definition lexer_inv :: "Lexer \<Rightarrow> bool" where
  "lexer_inv lxr =
     (readPosition lxr = position lxr + 1
      \<and> ch lxr = (if position lxr < length (input lxr) then input lxr ! position lxr else CHR 0x00))"

fun lexerAfter :: "Lexer \<Rightarrow> nat \<Rightarrow> Lexer" where
  "lexerAfter lxr 0 = lxr"
| "lexerAfter lxr (Suc n) = lexerAfter (snd (NextToken lxr)) n"

lemma lexer_inv_readChar: "lexer_inv (readChar lxr)"
  by (simp add: lexer_inv_def readChar_def Let_def)

lemma lexer_inv_New: "lexer_inv (New src)"
  by (simp add: New_def lexer_inv_readChar)

lemma lexer_inv_steps: "steps a b \<Longrightarrow> lexer_inv a \<Longrightarrow> lexer_inv b"
proof -
  have "lexer_inv a \<Longrightarrow> lexer_inv ((readChar ^^ k) a)" for k
    by (cases k) (simp_all add: lexer_inv_readChar)
  then show "steps a b \<Longrightarrow> lexer_inv a \<Longrightarrow> lexer_inv b"
    by (auto simp: steps_def)
qed

lemma lexer_inv_NextToken: "lexer_inv (snd (NextToken lxr))"
proof -
  obtain k where "snd (NextToken lxr) = (readChar ^^ Suc k) lxr"
    using steps1_NextToken [of lxr] by (auto simp: steps1_def)
  then show ?thesis by (simp add: lexer_inv_readChar)
qed

lemma lexer_inv_lexerAfter: "lexer_inv lxr \<Longrightarrow> lexer_inv (lexerAfter lxr n)"
  by (induction n arbitrary: lxr) (simp_all add: lexer_inv_NextToken)

lemma lexerAfter_Suc: "lexerAfter lxr (Suc n) = snd (NextToken (lexerAfter lxr n))"
  by (induction n arbitrary: lxr) simp_all

lemma input_New: "input (New src) = src"
  by (simp add: New_def input_readChar)

lemma input_NextToken: "input (snd (NextToken lxr)) = input lxr"
  by (rule steps_input [OF steps1_steps [OF steps1_NextToken]])

lemma input_lexerAfter: "input (lexerAfter lxr n) = input lxr"
  by (induction n arbitrary: lxr) (simp_all add: input_NextToken)

lemma position_NextToken:
  assumes "lexer_inv lxr"
  shows "position lxr < position (snd (NextToken lxr))"
proof -
  have "readPosition lxr < readPosition (snd (NextToken lxr))"
    by (rule steps1_readPosition [OF steps1_NextToken])
  moreover have "readPosition (snd (NextToken lxr)) = position (snd (NextToken lxr)) + 1"
    using lexer_inv_NextToken [of lxr] by (simp add: lexer_inv_def)
  moreover have "readPosition lxr = position lxr + 1"
    using assms by (simp add: lexer_inv_def)
  ultimately show ?thesis by simp
qed

lemma position_lexerAfter_mono:
  assumes "lexer_inv lxr" and "n \<le> m"
  shows "position (lexerAfter lxr n) \<le> position (lexerAfter lxr m)"
  using assms(2)
proof (induction m)
  case 0
  then show ?case by simp
next
  case (Suc m)
  show ?case
  proof (cases "n = Suc m")
    case True
    then show ?thesis by simp
  next
    case False
    with Suc have "position (lexerAfter lxr n) \<le> position (lexerAfter lxr m)" by simp
    also have "\<dots> < position (lexerAfter lxr (Suc m))"
      unfolding lexerAfter_Suc
      by (rule position_NextToken [OF lexer_inv_lexerAfter [OF assms(1)]])
    finally show ?thesis by simp
  qed
qed

lemma exhausted_EOF:
  assumes "lexer_inv lxr" and "length (input lxr) \<le> position lxr"
  shows "NextToken lxr =
    (\<lparr>Type = EOF, Literal = [], Line = line lxr, Column = column lxr\<rparr>,
     lxr\<lparr>position := position lxr + 1, readPosition := position lxr + 2\<rparr>)"
proof -
  have c: "ch lxr = CHR 0x00" and r: "readPosition lxr = position lxr + 1"
    using assms by (simp_all add: lexer_inv_def)
  have "readChar lxr = lxr\<lparr>position := position lxr + 1, readPosition := position lxr + 2\<rparr>"
    using assms(2) c r by (simp add: readChar_def Let_def)
  then show ?thesis by (simp add: NextToken_EOF_input [OF c])
qed

lemma exhausted_lexerAfter:
  assumes "lexer_inv lxr" and "length (input lxr) \<le> position lxr"
  shows "line (lexerAfter lxr n) = line lxr \<and> column (lexerAfter lxr n) = column lxr"
  using assms
proof (induction n arbitrary: lxr)
  case 0
  then show ?case by simp
next
  case (Suc n)
  let ?lxr' = "lxr\<lparr>position := position lxr + 1, readPosition := position lxr + 2\<rparr>"
  have nt: "snd (NextToken lxr) = ?lxr'"
    using exhausted_EOF [OF Suc.prems] by simp
  have "lexer_inv ?lxr'"
    using lexer_inv_NextToken [of lxr] nt by simp
  moreover have "length (input ?lxr') \<le> position ?lxr'"
    using Suc.prems(2) by simp
  ultimately have "line (lexerAfter ?lxr' n) = line ?lxr' \<and> column (lexerAfter ?lxr' n) = column ?lxr'"
    by (rule Suc.IH)
  then show ?case by (simp add: nt)
qed

lemma position_readChar: "position (readChar lxr) = readPosition lxr"
  by (simp add: readChar_def Let_def)

lemma inv_readPosition: "lexer_inv lxr \<Longrightarrow> readPosition lxr = position lxr + 1"
  unfolding lexer_inv_def by (rule conjunct1)

lemma position_steps: "steps a b \<Longrightarrow> lexer_inv a \<Longrightarrow> position a \<le> position b"
proof -
  have "lexer_inv a \<Longrightarrow> position a \<le> position ((readChar ^^ k) a)" for k
  proof (induction k)
    case 0
    then show ?case by simp
  next
    case (Suc k)
    have "lexer_inv ((readChar ^^ k) a)"
      using Suc.prems by (cases k) (simp_all add: lexer_inv_readChar)
    then have "readPosition ((readChar ^^ k) a) = position ((readChar ^^ k) a) + 1"
      by (rule inv_readPosition)
    then have "position ((readChar ^^ k) a) \<le> position ((readChar ^^ Suc k) a)"
      by (simp add: position_readChar)
    with Suc show ?case by simp
  qed
  then show "steps a b \<Longrightarrow> lexer_inv a \<Longrightarrow> position a \<le> position b"
    by (auto simp: steps_def)
qed

lemma inv_nonzero:
  assumes "lexer_inv lxr" and "ch lxr \<noteq> CHR 0x00"
  shows "position lxr < length (input lxr)"
proof (rule ccontr)
  assume "\<not> position lxr < length (input lxr)"
  moreover have "ch lxr = (if position lxr < length (input lxr) then input lxr ! position lxr
                            else CHR 0x00)"
    using assms(1) unfolding lexer_inv_def by (rule conjunct2)
  ultimately have "ch lxr = CHR 0x00" by simp
  with assms(2) show False by simp
qed

lemma readChar_within:
  assumes "lexer_inv lxr" and "ch lxr \<noteq> CHR 0x00"
  shows "position (readChar lxr) \<le> length (input (readChar lxr))"
proof -
  have "position lxr < length (input lxr)"
    by (rule inv_nonzero [OF assms])
  moreover have "readPosition lxr = position lxr + 1"
    by (rule inv_readPosition [OF assms(1)])
  ultimately show ?thesis
    by (simp add: position_readChar input_readChar)
qed

lemma readIdentifierLoop_within:
  "lexer_inv lxr \<Longrightarrow> position lxr \<le> length (input lxr) \<Longrightarrow>
     position (readIdentifierLoop lxr) \<le> length (input lxr)"
proof (induction lxr rule: readIdentifierLoop.induct)
  case (1 lxr)
  show ?case
  proof (cases "isLetter (ch lxr) \<or> isDigit (ch lxr)")
    case True
    then have nz: "ch lxr \<noteq> CHR 0x00"
      by (auto simp: isLetter_def isDigit_def unicodeIsLetter_def)
    have "position (readIdentifierLoop (readChar lxr)) \<le> length (input (readChar lxr))"
      using True "1.prems" nz by (intro "1.IH" lexer_inv_readChar readChar_within)
    then show ?thesis
      using True by (simp add: readIdentifierLoop.simps [of lxr] input_readChar)
  next
    case False
    then show ?thesis
      using "1.prems" by (simp add: readIdentifierLoop.simps [of lxr])
  qed
qed

lemma readNumberLoop_within:
  "lexer_inv lxr \<Longrightarrow> position lxr \<le> length (input lxr) \<Longrightarrow>
     position (readNumberLoop lxr) \<le> length (input lxr)"
proof (induction lxr rule: readNumberLoop.induct)
  case (1 lxr)
  show ?case
  proof (cases "isDigit (ch lxr)")
    case True
    then have nz: "ch lxr \<noteq> CHR 0x00"
      by (auto simp: isDigit_def)
    have "position (readNumberLoop (readChar lxr)) \<le> length (input (readChar lxr))"
      using True "1.prems" nz by (intro "1.IH" lexer_inv_readChar readChar_within)
    then show ?thesis
      using True by (simp add: readNumberLoop.simps [of lxr] input_readChar)
  next
    case False
    then show ?thesis
      using "1.prems" by (simp add: readNumberLoop.simps [of lxr])
  qed
qed

lemma readStringLoop_within:
  "lexer_inv lxr \<Longrightarrow> position lxr \<le> length (input lxr) \<Longrightarrow>
     position (readStringLoop lxr) \<le> length (input lxr)"
proof (induction lxr rule: readStringLoop.induct)
  case (1 lxr)
  show ?case
  proof (cases "ch lxr \<noteq> CHR 0x22 \<and> ch lxr \<noteq> CHR 0x00")
    case True
    then have nz: "ch lxr \<noteq> CHR 0x00"
      by simp
    have "position (readStringLoop (readChar lxr)) \<le> length (input (readChar lxr))"
      using True "1.prems" nz by (intro "1.IH" lexer_inv_readChar readChar_within)
    then show ?thesis
      using True by (simp add: readStringLoop.simps [of lxr] input_readChar)
  next
    case False
    then show ?thesis
      using "1.prems" by (auto simp: readStringLoop.simps [of lxr])
  qed
qed

text \<open>
  Go's slice expression \<open>s[i:j]\<close> panics unless \<open>i \<le> j \<le> len(s)\<close>. The three slices of
  the lexer are taken in states reached from \<open>New\<close> whose current byte is not the end
  marker, and there the bounds hold.
\<close>

lemma slice_bounds:
  assumes "lexer_inv lxr" and "ch lxr \<noteq> CHR 0x00"
  shows "position lxr \<le> position (readIdentifierLoop lxr)
         \<and> position (readIdentifierLoop lxr) \<le> length (input (readIdentifierLoop lxr))"
    and "position lxr \<le> position (readNumberLoop lxr)
         \<and> position (readNumberLoop lxr) \<le> length (input (readNumberLoop lxr))"
    and "position (readChar lxr) \<le> position (readStringLoop (readChar lxr))
         \<and> position (readStringLoop (readChar lxr)) \<le> length (input (readStringLoop (readChar lxr)))"
proof -
  have le: "position lxr \<le> length (input lxr)"
    using inv_nonzero [OF assms] by simp
  show "position lxr \<le> position (readIdentifierLoop lxr)
         \<and> position (readIdentifierLoop lxr) \<le> length (input (readIdentifierLoop lxr))"
    using position_steps [OF steps_readIdentifierLoop assms(1)]
      readIdentifierLoop_within [OF assms(1) le]
    by (simp add: steps_input [OF steps_readIdentifierLoop])
  show "position lxr \<le> position (readNumberLoop lxr)
         \<and> position (readNumberLoop lxr) \<le> length (input (readNumberLoop lxr))"
    using position_steps [OF steps_readNumberLoop assms(1)]
      readNumberLoop_within [OF assms(1) le]
    by (simp add: steps_input [OF steps_readNumberLoop])
  show "position (readChar lxr) \<le> position (readStringLoop (readChar lxr))
         \<and> position (readStringLoop (readChar lxr)) \<le> length (input (readStringLoop (readChar lxr)))"
    using position_steps [OF steps_readStringLoop lexer_inv_readChar, of lxr]
      readStringLoop_within [OF lexer_inv_readChar readChar_within [OF assms]]
    by (simp add: steps_input [OF steps_readStringLoop])
qed

subsection \<open>Rules for running the lexer on a given state\<close>

lemmas readChar_eval = readChar_def [of "\<lparr>input = src, position = pos, readPosition = rpos, ch = c, line = ln, column = col\<rparr>"] for src pos rpos c ln col
lemmas peekChar_eval = peekChar_def [of "\<lparr>input = src, position = pos, readPosition = rpos, ch = c, line = ln, column = col\<rparr>"] for src pos rpos c ln col
lemmas skipWhitespace_eval = skipWhitespace.simps [of "\<lparr>input = src, position = pos, readPosition = rpos, ch = c, line = ln, column = col\<rparr>"] for src pos rpos c ln col
lemmas skipCommentLoop_eval = skipCommentLoop.simps [of "\<lparr>input = src, position = pos, readPosition = rpos, ch = c, line = ln, column = col\<rparr>"] for src pos rpos c ln col
lemmas skipComment_eval = skipComment_def [of "\<lparr>input = src, position = pos, readPosition = rpos, ch = c, line = ln, column = col\<rparr>"] for src pos rpos c ln col
lemmas readIdentifierLoop_eval = readIdentifierLoop.simps [of "\<lparr>input = src, position = pos, readPosition = rpos, ch = c, line = ln, column = col\<rparr>"] for src pos rpos c ln col
lemmas readIdentifier_eval = readIdentifier_def [of "\<lparr>input = src, position = pos, readPosition = rpos, ch = c, line = ln, column = col\<rparr>"] for src pos rpos c ln col
lemmas readNumberLoop_eval = readNumberLoop.simps [of "\<lparr>input = src, position = pos, readPosition = rpos, ch = c, line = ln, column = col\<rparr>"] for src pos rpos c ln col
lemmas readNumber_eval = readNumber_def [of "\<lparr>input = src, position = pos, readPosition = rpos, ch = c, line = ln, column = col\<rparr>"] for src pos rpos c ln col
lemmas readStringLoop_eval = readStringLoop.simps [of "\<lparr>input = src, position = pos, readPosition = rpos, ch = c, line = ln, column = col\<rparr>"] for src pos rpos c ln col
lemmas readString_eval = readString_def [of "\<lparr>input = src, position = pos, readPosition = rpos, ch = c, line = ln, column = col\<rparr>"] for src pos rpos c ln col
lemmas single_eval = single_def [of _ "\<lparr>input = src, position = pos, readPosition = rpos, ch = c, line = ln, column = col\<rparr>"] for src pos rpos c ln col
lemmas double_eval = double_def [of _ "\<lparr>input = src, position = pos, readPosition = rpos, ch = c, line = ln, column = col\<rparr>"] for src pos rpos c ln col
lemmas NextToken_eval = NextToken.simps [of "\<lparr>input = src, position = pos, readPosition = rpos, ch = c, line = ln, column = col\<rparr>"] for src pos rpos c ln col
lemmas pending_eval = pending_def [of "\<lparr>input = src, position = pos, readPosition = rpos, ch = c, line = ln, column = col\<rparr>"] for src pos rpos c ln col

lemma drop_1_Cons: "drop 1 (x # xs) = xs"
  by simp

lemma take_1_Cons: "take 1 (x # xs) = [x]"
  by simp

lemma nth_1_Cons: "(x # xs) ! 1 = xs ! 0"
  by simp

lemmas lexer_eval = drop_1_Cons take_1_Cons nth_1_Cons New_def readChar_eval peekChar_eval skipWhitespace_eval skipCommentLoop_eval
  skipComment_eval readIdentifierLoop_eval readIdentifier_eval readNumberLoop_eval readNumber_eval
  readStringLoop_eval readString_eval single_eval double_eval NextToken_eval pending_eval
  Let_def isLetter_def unicodeIsLetter_def isDigit_def slice_def newToken_def byteString_def

section \<open>Abstract syntax (frontend/parser/parser.go)\<close>

text \<open>
  An \<open>Expression\<close> is a Go interface whose nil value stands for "no expression": a field
  of that type is an \<open>Expression option\<close>. The integer of a \<open>NumberLiteral\<close> is an
  \<open>int64\<close>.

  A \<open>Statement\<close> is an interface too, and the parser hands out pointers through it.
  \<open>parsePrintStatement\<close> and \<open>parseIfStatement\<close> return a nil pointer on failure, and
  \<open>parseStatement\<close> returns that pointer as a \<open>Statement\<close>: an interface value that is
  not nil and holds a nil pointer. \<open>NilPrintStatement\<close>, \<open>NilAssignmentStatement\<close> and
  \<open>NilIfStatement\<close> are these values; the interpreter tests for them (\<open>s == nil\<close> inside
  the type switch). A statement list holds no nil interface values: the parser never
  appends one and the interpreter skips them.
\<close>

type_synonym int64 = "64 word"

datatype Expression =
    Identifier Token string
  | NumberLiteral Token int64
  | StringLiteral Token string
  | BinaryExpression Token "Expression option" string "Expression option"

datatype Statement =
    PrintStatement Token "Expression option"
  | NilPrintStatement
  | AssignmentStatement Token "(Token \<times> string) option" "Expression option"
  | NilAssignmentStatement
  | IfStatement Token "Expression option" "BlockStatement option" "BlockStatement option"
  | NilIfStatement
  | BlockStmt "BlockStatement option"
and BlockStatement = BlockStatement Token "Statement list"

datatype Program = Program "Statement list"

section \<open>Output\<close>

text \<open>
  Parser and interpreter write to the standard output of the process with \<open>fmt.Printf\<close>
  and \<open>fmt.Println\<close>. The text written so far is the field \<open>stdout\<close> of their state.
\<close>

record World =
  stdout :: string

definition printf :: "'a World_scheme \<Rightarrow> string \<Rightarrow> 'a World_scheme" where
  "printf w s = w\<lparr>stdout := stdout w @ s\<rparr>"

text \<open>The decimal digits of a number that is not negative, and \<open>%d\<close>.\<close>

function showDigits :: "int \<Rightarrow> string" where
  "showDigits k = (if k < 10 then [''0123456789'' ! nat k]
                   else showDigits (k div 10) @ [''0123456789'' ! nat (k mod 10)])"
  by pat_completeness auto
termination
  by (relation "measure nat") auto

declare showDigits.simps [simp del]

definition showInt :: "int \<Rightarrow> string" where
  "showInt k = (if k < 0 then CHR ''-'' # showDigits (- k) else showDigits k)"

definition showNat :: "nat \<Rightarrow> string" where
  "showNat n = showInt (int n)"

definition errorAt :: "nat \<Rightarrow> nat \<Rightarrow> string \<Rightarrow> string" where
  "errorAt ln col msg =
     ''Error at line '' @ showNat ln @ '', col '' @ showNat col @ '': '' @ msg @ [CHR 0x0A]"

section \<open>Parser (frontend/parser/parser.go)\<close>

record Parser = World +
  lx :: Lexer
  curToken :: Token
  peekToken :: Token
  Debug :: bool

definition nextToken :: "Parser \<Rightarrow> Parser" where
  "nextToken p =
     (let (tok, lx1) = NextToken (lx p)
      in p\<lparr>curToken := peekToken p, peekToken := tok, lx := lx1\<rparr>)"

text \<open>
  \<open>New\<close> of the parser calls \<open>nextToken\<close> twice on a parser whose two tokens are zero
  values; both are overwritten by then, so the zero token is never seen.
\<close>

definition NewParser :: "Lexer \<Rightarrow> bool \<Rightarrow> Parser" where
  "NewParser lx0 dbg =
     (let (t1, lx1) = NextToken lx0; (t2, lx2) = NextToken lx1
      in \<lparr>stdout = [], lx = lx2, curToken = t1, peekToken = t2, Debug = dbg\<rparr>)"

definition LOWEST :: nat where "LOWEST = 1"
definition EQUALS :: nat where "EQUALS = 2"
definition LESSGREATER :: nat where "LESSGREATER = 3"
definition SUM_PREC :: nat where "SUM_PREC = 4"
definition PRODUCT :: nat where "PRODUCT = 5"

fun precedences :: "TokenType \<Rightarrow> nat option" where
  "precedences EQ = Some EQUALS"
| "precedences NOT_EQ = Some EQUALS"
| "precedences LT = Some LESSGREATER"
| "precedences GT = Some LESSGREATER"
| "precedences LE = Some LESSGREATER"
| "precedences GE = Some LESSGREATER"
| "precedences PLUS = Some SUM_PREC"
| "precedences MINUS = Some SUM_PREC"
| "precedences ASTERISK = Some PRODUCT"
| "precedences SLASH = Some PRODUCT"
| "precedences _ = None"

definition getPrecedence :: "TokenType \<Rightarrow> nat" where
  "getPrecedence tokenType = (case precedences tokenType of Some q \<Rightarrow> q | None \<Rightarrow> LOWEST)"

definition getCurrentPrecedence :: "Parser \<Rightarrow> nat" where
  "getCurrentPrecedence p =
     (case precedences (Type (curToken p)) of Some q \<Rightarrow> q | None \<Rightarrow> LOWEST)"

definition isOperator :: "TokenType \<Rightarrow> bool" where
  "isOperator tokenType =
     (tokenType = PLUS \<or> tokenType = MINUS \<or> tokenType = ASTERISK \<or> tokenType = SLASH
      \<or> tokenType = EQ \<or> tokenType = NOT_EQ \<or> tokenType = LT \<or> tokenType = GT
      \<or> tokenType = LE \<or> tokenType = GE)"

text \<open>
  \<open>strconv.ParseInt(s, 10, 64)\<close>: an optional sign, then one or more decimal digits;
  an error (\<open>None\<close>) on any other text and on a value outside the \<open>int64\<close> range.
\<close>

definition decimalValue :: "string \<Rightarrow> int" where
  "decimalValue s = foldl (\<lambda>a c. 10 * a + (of_char c - 48)) 0 s"

definition ParseInt :: "string \<Rightarrow> int64 option" where
  "ParseInt s =
     (if s = [] then None
      else let neg = (hd s = CHR ''-'');
               s1 = (if hd s = CHR ''+'' \<or> hd s = CHR ''-'' then tl s else s)
           in if s1 = [] \<or> \<not> list_all isDigit s1 then None
              else let un = decimalValue s1
                   in if \<not> neg \<and> 2 ^ 63 \<le> un then None
                      else if neg \<and> 2 ^ 63 < un then None
                      else Some (if neg then - word_of_int un else word_of_int un))"

definition errorAtCur :: "Parser \<Rightarrow> string \<Rightarrow> Parser" where
  "errorAtCur p msg = printf p (errorAt (Line (curToken p)) (Column (curToken p)) msg)"

definition parsePrimary :: "Parser \<Rightarrow> Expression option \<times> Parser" where
  "parsePrimary p =
     (case Type (curToken p) of
        INT_TOK \<Rightarrow>
          (case ParseInt (Literal (curToken p)) of
             None \<Rightarrow> (None, errorAtCur p (''Invalid number '' @ Literal (curToken p)
                        @ '' // Numbers too hard for you, huh?''))
           | Some v \<Rightarrow> (Some (NumberLiteral (curToken p) v), nextToken p))
      | STRING \<Rightarrow> (Some (StringLiteral (curToken p) (Literal (curToken p))), nextToken p)
      | IDENT \<Rightarrow> (Some (Identifier (curToken p) (Literal (curToken p))), nextToken p)
      | _ \<Rightarrow> (None, errorAtCur p (''Expected number, string, or identifier, got ''
                 @ tokenTypeString (Type (curToken p)) @ '' // What even is this, genius?'')))"

text \<open>
  The parser's recursion follows the tokens, not a datatype. Each recursive function
  takes a bound on the recursion still allowed and returns \<open>None\<close> when it is used up;
  the section on termination below shows that a bound read off the input is never used up.
  \<open>parseExpressionLoop\<close> is the \<open>for\<close> loop of \<open>parseExpression\<close>.
\<close>

definition continues :: "Parser \<Rightarrow> nat \<Rightarrow> bool" where
  "continues p precedence =
     (Type (curToken p) \<noteq> EOF \<and> Type (curToken p) \<noteq> SEMICOLON
      \<and> Type (curToken p) \<noteq> RBRACE \<and> Type (curToken p) \<noteq> LBRACE
      \<and> precedence < getCurrentPrecedence p)"

fun parseExpression :: "nat \<Rightarrow> Parser \<Rightarrow> nat \<Rightarrow> (Expression option \<times> Parser) option"
  and parseExpressionLoop ::
    "nat \<Rightarrow> Parser \<Rightarrow> nat \<Rightarrow> Expression \<Rightarrow> (Expression option \<times> Parser) option"
where
  "parseExpression 0 p precedence = None"
| "parseExpression (Suc n) p precedence =
     (if Type (curToken p) = MINUS then
        (let token = curToken p; p1 = nextToken p
         in if Type (curToken p1) \<noteq> INT_TOK then
              Some (None, errorAtCur p1 (''Expected number after -, got ''
                @ tokenTypeString (Type (curToken p1)) @ '' // Numbers too hard for you, huh?''))
            else
              (case ParseInt (Literal (curToken p1)) of
                 None \<Rightarrow> Some (None, errorAtCur p1 (''Invalid number '' @ Literal (curToken p1)
                           @ '' // Numbers too hard for you, huh?''))
               | Some v \<Rightarrow>
                   parseExpressionLoop (Suc n) (nextToken p1) precedence
                     (NumberLiteral token (- v))))
      else
        (case parsePrimary p of
           (None, p1) \<Rightarrow> Some (None, p1)
         | (Some left, p1) \<Rightarrow> parseExpressionLoop (Suc n) p1 precedence left))"
| "parseExpressionLoop 0 p precedence left = None"
| "parseExpressionLoop (Suc n) p precedence left =
     (if continues p precedence then
        (if \<not> isOperator (Type (curToken p)) then Some (Some left, p)
         else
           (let op = curToken p; p1 = nextToken p
            in case parseExpression n p1 (getPrecedence (Type op)) of
                 None \<Rightarrow> None
               | Some (None, p2) \<Rightarrow>
                   Some (None, errorAtCur p2 (''Expected expression after '' @ Literal op
                     @ '' // What's this nonsense, loser?''))
               | Some (Some right, p2) \<Rightarrow>
                   parseExpressionLoop n p2 precedence
                     (BinaryExpression op (Some left) (Literal op) (Some right))))
      else Some (Some left, p))"


text \<open>
  What the parser still has to read: its two buffered tokens, unless they are end
  markers, and what the lexer has pending. \<open>nextToken\<close> never increases it and
  decreases it whenever the current token is not \<open>EOF\<close>.
\<close>

definition remaining :: "Parser \<Rightarrow> nat" where
  "remaining p =
     (if Type (curToken p) = EOF then 0 else 1) + (if Type (peekToken p) = EOF then 0 else 1)
     + pending (lx p)"


lemma remaining_nextToken_less:
  "Type (curToken p) \<noteq> EOF \<Longrightarrow> remaining (nextToken p) < remaining p"
  using pending_NextToken_le [of "lx p"] pending_NextToken_less [of "lx p"]
  by (auto simp: remaining_def nextToken_def split_beta)

text \<open>The loop \<open>for p.curToken.Type == lexer.SEMICOLON { p.nextToken() }\<close>.\<close>

function skipSemicolons :: "Parser \<Rightarrow> Parser" where
  "skipSemicolons p =
     (if Type (curToken p) = SEMICOLON then skipSemicolons (nextToken p) else p)"
  by pat_completeness auto
termination
  by (relation "measure remaining") (auto intro: remaining_nextToken_less)

declare skipSemicolons.simps [simp del]

definition parsePrintStatement :: "nat \<Rightarrow> Parser \<Rightarrow> (Statement \<times> Parser) option" where
  "parsePrintStatement n p =
     (let tok = curToken p; p1 = nextToken p
      in case parseExpression n p1 LOWEST of
           None \<Rightarrow> None
         | Some (None, p2) \<Rightarrow>
             Some (NilPrintStatement, errorAtCur p2 (''Expected expression after suna, got ''
               @ tokenTypeString (Type (curToken p2)) @ '' // You absolute walnut!''))
         | Some (Some v, p2) \<Rightarrow> Some (PrintStatement tok (Some v), p2))"

text \<open>
  \<open>parseBlockLoop\<close> is the \<open>for\<close> loop of \<open>parseBlockStatement\<close> together with the test
  for the closing brace that follows it.
\<close>

fun parseStatement :: "nat \<Rightarrow> Parser \<Rightarrow> (Statement option \<times> Parser) option"
  and parseIfStatement :: "nat \<Rightarrow> Parser \<Rightarrow> (Statement \<times> Parser) option"
  and parseBlockStatement :: "nat \<Rightarrow> Parser \<Rightarrow> (BlockStatement option \<times> Parser) option"
  and parseBlockLoop ::
    "nat \<Rightarrow> Parser \<Rightarrow> Token \<Rightarrow> Statement list \<Rightarrow> (BlockStatement option \<times> Parser) option"
where
  "parseStatement n p =
     (case Type (curToken p) of
        SUN \<Rightarrow>
          (let tok = curToken p; p1 = nextToken p
           in if Type (curToken p1) \<noteq> IDENT then
                Some (None, errorAtCur p1 (''Expected identifier after SUN, got ''
                  @ tokenTypeString (Type (curToken p1)) @ '' // My grandma codes better!''))
              else
                (let name = (curToken p1, Literal (curToken p1)); p2 = nextToken p1
                 in if Type (curToken p2) \<noteq> ASSIGN then
                      Some (None, errorAtCur p2 (''Expected = after identifier, got ''
                        @ tokenTypeString (Type (curToken p2)) @ '' // Yo, nice one, jerk!''))
                    else
                      (case parseExpression n (nextToken p2) LOWEST of
                         None \<Rightarrow> None
                       | Some (None, p3) \<Rightarrow>
                           Some (None, errorAtCur p3 (''Expected expression after =, got ''
                             @ tokenTypeString (Type (curToken p3))
                             @ '' // You absolute walnut!''))
                       | Some (Some v, p3) \<Rightarrow>
                           Some (Some (AssignmentStatement tok (Some name) (Some v)), p3))))
      | SUNA \<Rightarrow>
          (case parsePrintStatement n p of
             None \<Rightarrow> None
           | Some (stmt, p1) \<Rightarrow> Some (Some stmt, p1))
      | AGAR \<Rightarrow>
          (case parseIfStatement n p of
             None \<Rightarrow> None
           | Some (stmt, p1) \<Rightarrow> Some (Some stmt, p1))
      | _ \<Rightarrow>
          Some (None, errorAtCur p (''Invalid statement, got ''
            @ tokenTypeString (Type (curToken p)) @ '' // Keep it together, genius!'')))"
| "parseIfStatement n p =
     (let tok = curToken p
      in case parseExpression n (nextToken p) LOWEST of
           None \<Rightarrow> None
         | Some (None, p1) \<Rightarrow>
             Some (NilIfStatement, errorAtCur p1 (''Expected condition after agar, got ''
               @ tokenTypeString (Type (curToken p1)) @ '' // This syntax sucks, fix it!''))
         | Some (Some cond, p1) \<Rightarrow>
             if Type (curToken p1) \<noteq> LBRACE then
               Some (NilIfStatement, errorAtCur p1 (''Expected { after condition, got ''
                 @ tokenTypeString (Type (curToken p1))
                 @ '' // Get your braces together, loser!''))
             else
               (case parseBlockStatement n p1 of
                  None \<Rightarrow> None
                | Some (None, p2) \<Rightarrow>
                    Some (NilIfStatement, errorAtCur p2
                      ''Invalid block after agar // This ain't working, jerk!'')
                | Some (Some cons, p2) \<Rightarrow>
                    (let p3 = skipSemicolons (nextToken p2)
                     in if Type (curToken p3) = MAGAR then
                          (let p4 = nextToken p3
                           in if Type (curToken p4) \<noteq> LBRACE then
                                Some (NilIfStatement, errorAtCur p4
                                  (''Expected { after magar, got ''
                                   @ tokenTypeString (Type (curToken p4))
                                   @ '' // Get your braces together, loser!''))
                              else
                                (case parseBlockStatement n p4 of
                                   None \<Rightarrow> None
                                 | Some (None, p5) \<Rightarrow>
                                     Some (NilIfStatement, errorAtCur p5
                                       ''Invalid block after magar // This ain't working, jerk!'')
                                 | Some (Some alt, p5) \<Rightarrow>
                                     Some (IfStatement tok (Some cond) (Some cons) (Some alt),
                                           nextToken p5)))
                        else Some (IfStatement tok (Some cond) (Some cons) None, p3))))"
| "parseBlockStatement n p = parseBlockLoop n (nextToken p) (curToken p) []"
| "parseBlockLoop 0 p tok stmts = None"
| "parseBlockLoop (Suc n) p tok stmts =
     (if Type (curToken p) \<noteq> RBRACE \<and> Type (curToken p) \<noteq> EOF then
        (case parseStatement n p of
           None \<Rightarrow> None
         | Some (Some stmt, p1) \<Rightarrow> parseBlockLoop n (skipSemicolons p1) tok (stmts @ [stmt])
         | Some (None, p1) \<Rightarrow> parseBlockLoop n (skipSemicolons (nextToken p1)) tok stmts)
      else if Type (curToken p) \<noteq> RBRACE then
        Some (None, errorAtCur p (''Expected } to close block, got ''
          @ tokenTypeString (Type (curToken p)) @ '' // Close your blocks, you walnut!''))
      else Some (Some (BlockStatement tok stmts), p))"


text \<open>\<open>%v\<close> of a token prints its four fields between braces.\<close>

definition showToken :: "Token \<Rightarrow> string" where
  "showToken tok =
     ''{'' @ tokenTypeString (Type tok) @ '' '' @ Literal tok @ '' '' @ showNat (Line tok)
     @ '' '' @ showNat (Column tok) @ ''}''"

fun ParseProgramLoop :: "nat \<Rightarrow> Parser \<Rightarrow> Statement list \<Rightarrow> (Program \<times> Parser) option" where
  "ParseProgramLoop 0 p stmts = None"
| "ParseProgramLoop (Suc n) p stmts =
     (if Type (curToken p) \<noteq> EOF then
        (let p0 = (if Debug p then
                     printf p (''Debug: Parsing statement at '' @ showToken (curToken p)
                       @ '' (line '' @ showNat (Line (curToken p)) @ '', col ''
                       @ showNat (Column (curToken p)) @ '')'' @ [CHR 0x0A])
                   else p)
         in case parseStatement (Suc n) p0 of
              None \<Rightarrow> None
            | Some (Some stmt, p1) \<Rightarrow> ParseProgramLoop n (skipSemicolons p1) (stmts @ [stmt])
            | Some (None, p1) \<Rightarrow>
                ParseProgramLoop n
                  (skipSemicolons (nextToken (errorAtCur p1 (''Invalid statement, got ''
                     @ tokenTypeString (Type (curToken p1))
                     @ '' // Keep it together, genius!''))))
                  stmts)
      else Some (Program stmts, p))"

text \<open>
  \<open>ParseProgram\<close> runs the loop with the bound \<open>remaining p + 1\<close>, which
  \<open>ParseProgram_returns\<close> below shows to be enough for every parser state.
\<close>

definition ParseProgram :: "Parser \<Rightarrow> (Program \<times> Parser) option" where
  "ParseProgram p = ParseProgramLoop (Suc (remaining p)) p []"

section \<open>Interpreter (core/interpreter/interpreter.go)\<close>

datatype Object = IntObject int64 | StringObject string

fun objectString :: "Object \<Rightarrow> string" where
  "objectString (IntObject v) = showInt (sint v)"
| "objectString (StringObject v) = v"

text \<open>The interpreter's environment is the map \<open>store\<close>.\<close>

record Interpreter = World +
  env :: "string \<rightharpoonup> Object"

definition NewInterpreter :: "string \<Rightarrow> Interpreter" where
  "NewInterpreter printed = \<lparr>stdout = printed, env = Map.empty\<rparr>"

text \<open>
  An evaluation yields an object, or the nil that signals a failure already reported,
  or it stops the process with a run-time panic. Go's \<open>/\<close> and \<open>%\<close> on \<open>int64\<close> truncate
  towards zero, wrap around for the most negative value divided by \<open>-1\<close>, and panic when
  the divisor is zero.
\<close>

datatype EvalResult = Value Object | Nil | Panicked

definition quo :: "int64 \<Rightarrow> int64 \<Rightarrow> int64" where
  "quo a b = word_of_int (sint a sdiv sint b)"

definition rem :: "int64 \<Rightarrow> int64 \<Rightarrow> int64" where
  "rem a b = word_of_int (sint a smod sint b)"

definition boolToInt :: "bool \<Rightarrow> int64" where
  "boolToInt b = (if b then 1 else 0)"

definition invalidOperation ::
  "Interpreter \<Rightarrow> Token \<Rightarrow> Object \<Rightarrow> string \<Rightarrow> Object \<Rightarrow> EvalResult \<times> Interpreter" where
  "invalidOperation i token left op right =
     (Nil, printf i (errorAt (Line token) (Column token)
        (''Invalid operation '' @ op @ '' between '' @ objectString left @ '' and ''
         @ objectString right @ '' '')))"

fun evalBinaryExpression ::
  "Interpreter \<Rightarrow> Token \<Rightarrow> Object \<Rightarrow> string \<Rightarrow> Object \<Rightarrow> EvalResult \<times> Interpreter" where
  "evalBinaryExpression i token (IntObject a) op (IntObject b) =
     (if op = ''+'' then (Value (IntObject (a + b)), i)
      else if op = ''-'' then (Value (IntObject (a - b)), i)
      else if op = ''*'' then (Value (IntObject (a * b)), i)
      else if op = ''%'' then
        (if b = 0 then (Panicked, i) else (Value (IntObject (rem a b)), i))
      else if op = ''/'' then
        (if b = 0 then
           (Nil, printf i (errorAt (Line token) (Column token) ''Division by zero ''))
         else (Value (IntObject (quo a b)), i))
      else if op = ''=='' then (Value (IntObject (boolToInt (a = b))), i)
      else if op = ''!='' then (Value (IntObject (boolToInt (a \<noteq> b))), i)
      else if op = ''<'' then (Value (IntObject (boolToInt (word_sless a b))), i)
      else if op = ''>'' then (Value (IntObject (boolToInt (word_sless b a))), i)
      else if op = ''<='' then (Value (IntObject (boolToInt (word_sle a b))), i)
      else if op = ''>='' then (Value (IntObject (boolToInt (word_sle b a))), i)
      else invalidOperation i token (IntObject a) op (IntObject b))"
| "evalBinaryExpression i token (StringObject a) op (StringObject b) =
     (if op = ''+'' then (Value (StringObject (a @ b)), i)
      else invalidOperation i token (StringObject a) op (StringObject b))"
| "evalBinaryExpression i token left op right = invalidOperation i token left op right"

function evalExpression :: "Interpreter \<Rightarrow> Expression option \<Rightarrow> EvalResult \<times> Interpreter" where
  "evalExpression i None = (Nil, i)"
| "evalExpression i (Some (NumberLiteral tok v)) = (Value (IntObject v), i)"
| "evalExpression i (Some (StringLiteral tok v)) = (Value (StringObject v), i)"
| "evalExpression i (Some (Identifier tok name)) =
     (case env i name of
        None \<Rightarrow> (Nil, printf i (errorAt (Line tok) (Column tok)
                   (''Undefined variable '' @ name @ '' '')))
      | Some v \<Rightarrow> (Value v, i))"
| "evalExpression i (Some (BinaryExpression tok l op r)) =
     (case evalExpression i l of
        (Value left, i1) \<Rightarrow>
          (case evalExpression i1 r of
             (Value right, i2) \<Rightarrow> evalBinaryExpression i2 tok left op right
           | (Nil, i2) \<Rightarrow> (Nil, i2)
           | (Panicked, i2) \<Rightarrow> (Panicked, i2))
      | (Nil, i1) \<Rightarrow> (Nil, i1)
      | (Panicked, i1) \<Rightarrow> (Panicked, i1))"
  by pat_completeness auto
termination
  by (relation "measure (\<lambda>(i, e). case e of None \<Rightarrow> 0 | Some x \<Rightarrow> Suc (size x))")
     (auto split: option.splits)

definition isTruthy :: "Object \<Rightarrow> bool" where
  "isTruthy obj = (case obj of IntObject v \<Rightarrow> v \<noteq> 0 | StringObject v \<Rightarrow> 0 < length v)"

text \<open>
  A statement returns, or the process has stopped in a panic.
  \<open>evalStatements\<close> is the loop \<open>for _, stmt := range ... { i.evalStatement(stmt) }\<close>.
\<close>

datatype Exec = Returned Interpreter | Panic Interpreter

fun evalStatement :: "Interpreter \<Rightarrow> Statement \<Rightarrow> Exec"
  and evalStatements :: "Interpreter \<Rightarrow> Statement list \<Rightarrow> Exec"
where
  "evalStatement i NilPrintStatement = Returned i"
| "evalStatement i (PrintStatement tok None) =
     Returned (printf i (errorAt (Line tok) (Column tok) ''Invalid print statement ''))"
| "evalStatement i (PrintStatement tok (Some e)) =
     (case evalExpression i (Some e) of
        (Value v, i1) \<Rightarrow> Returned (printf i1 (objectString v @ [CHR 0x0A]))
      | (Nil, i1) \<Rightarrow>
          Returned (printf i1 (errorAt (Line tok) (Column tok) ''Invalid expression in print ''))
      | (Panicked, i1) \<Rightarrow> Panic i1)"
| "evalStatement i NilAssignmentStatement = Returned i"
| "evalStatement i (AssignmentStatement tok None v) =
     Returned (printf i (errorAt (Line tok) (Column tok) ''Invalid assignment statement ''))"
| "evalStatement i (AssignmentStatement tok (Some name) None) =
     Returned (printf i (errorAt (Line tok) (Column tok) ''Invalid assignment statement ''))"
| "evalStatement i (AssignmentStatement tok (Some name) (Some e)) =
     (case evalExpression i (Some e) of
        (Value v, i1) \<Rightarrow> Returned (i1\<lparr>env := (env i1)(snd name \<mapsto> v)\<rparr>)
      | (Nil, i1) \<Rightarrow>
          Returned (printf i1
            (errorAt (Line tok) (Column tok) ''Invalid expression in assignment ''))
      | (Panicked, i1) \<Rightarrow> Panic i1)"
| "evalStatement i NilIfStatement = Returned i"
| "evalStatement i (IfStatement tok None cons alt) =
     Returned (printf i (errorAt (Line tok) (Column tok) ''Invalid if statement ''))"
| "evalStatement i (IfStatement tok (Some c) None alt) =
     Returned (printf i (errorAt (Line tok) (Column tok) ''Invalid if block ''))"
| "evalStatement i (IfStatement tok (Some c) (Some (BlockStatement ctok cstmts)) None) =
     (case evalExpression i (Some c) of
        (Value condition, i1) \<Rightarrow>
          (if isTruthy condition then evalStatements i1 cstmts else Returned i1)
      | (Nil, i1) \<Rightarrow>
          Returned (printf i1 (errorAt (Line tok) (Column tok) ''Invalid condition in if ''))
      | (Panicked, i1) \<Rightarrow> Panic i1)"
| "evalStatement i (IfStatement tok (Some c) (Some (BlockStatement ctok cstmts))
      (Some (BlockStatement atok astmts))) =
     (case evalExpression i (Some c) of
        (Value condition, i1) \<Rightarrow>
          (if isTruthy condition then evalStatements i1 cstmts
           else evalStatements i1 astmts)
      | (Nil, i1) \<Rightarrow>
          Returned (printf i1 (errorAt (Line tok) (Column tok) ''Invalid condition in if ''))
      | (Panicked, i1) \<Rightarrow> Panic i1)"
| "evalStatement i (BlockStmt b) = Returned (printf i (''Error: Unknown statement type'' @ [CHR 0x0A]))"
| "evalStatements i [] = Returned i"
| "evalStatements i (stmt # stmts) =
     (case evalStatement i stmt of
        Returned i1 \<Rightarrow> evalStatements i1 stmts
      | Panic i1 \<Rightarrow> Panic i1)"

fun Interpret :: "Interpreter \<Rightarrow> Program \<Rightarrow> Exec" where
  "Interpret i (Program stmts) = evalStatements i stmts"

section \<open>The whole pipeline (main.go)\<close>

text \<open>
  \<open>main\<close> lexes, parses and interprets the text of a file. The interpreter goes on
  writing where the parser stopped.
\<close>

definition run :: "string \<Rightarrow> Exec option" where
  "run source =
     (case ParseProgram (NewParser (New source) False) of
        None \<Rightarrow> None
      | Some (program, p) \<Rightarrow> Some (Interpret (NewInterpreter (stdout p)) program))"


section \<open>Properties of the interpreter\<close>

lemma digit_not_newline: "n < 10 \<Longrightarrow> CHR 0x0A \<noteq> ''0123456789'' ! n"
proof -
  assume "n < 10"
  then have "n \<in> {0, 1, 2, 3, 4, 5, 6, 7, 8, 9}" by auto
  then show ?thesis by auto
qed

lemma showDigits_no_newline: "CHR 0x0A \<notin> set (showDigits k)"
proof (induction k rule: showDigits.induct)
  case (1 k)
  show ?case
  proof (cases "k < 10")
    case True
    then have "nat k < 10" by simp
    then show ?thesis
      using True by (simp add: showDigits.simps [of k] digit_not_newline)
  next
    case False
    then have "nat (k mod 10) < 10" by simp
    then show ?thesis
      using False "1.IH" by (simp add: showDigits.simps [of k] digit_not_newline)
  qed
qed

lemma showInt_no_newline: "CHR 0x0A \<notin> set (showInt k)"
  by (simp add: showInt_def showDigits_no_newline)

lemmas show_eval = showNat_def showInt_def showDigits.simps errorAt_def printf_def

text \<open>Evaluating an expression never changes the environment.\<close>

lemma env_evalBinaryExpression: "env (snd (evalBinaryExpression i tok a op b)) = env i"
  by (cases a; cases b) (simp_all add: invalidOperation_def printf_def)

lemma env_evalExpression: "env (snd (evalExpression i e)) = env i"
proof (induction i e rule: evalExpression.induct)
  case (5 i tok l op r)
  show ?case
  proof (cases "evalExpression i l")
    case (Pair res1 i1)
    note l = this
    show ?thesis
    proof (cases res1)
      case (Value left)
      show ?thesis
      proof (cases "evalExpression i1 r")
        case (Pair res2 i2)
        have e1: "env i1 = env i" using "5.IH"(1) l by simp
        have e2: "env i2 = env i1" using "5.IH"(2) [OF l [symmetric] Value] Pair by simp
        show ?thesis
          using l Value Pair e1 e2
          by (cases res2) (simp_all add: env_evalBinaryExpression)
      qed
    next
      case Nil
      then show ?thesis using l "5.IH"(1) by simp
    next
      case Panicked
      then show ?thesis using l "5.IH"(1) by simp
    qed
  qed
qed (simp_all add: printf_def split: option.splits)

subsection \<open>Integer arithmetic without division\<close>

text \<open>
  \<open>arith e\<close>: the expression is built from integer literals and \<open>+\<close>, \<open>-\<close>, \<open>*\<close> only;
  \<open>exact e\<close> is its value in the integers.
\<close>

fun arith :: "Expression \<Rightarrow> bool" where
  "arith (NumberLiteral tok v) = True"
| "arith (BinaryExpression tok (Some l) op (Some r)) =
     ((op = ''+'' \<or> op = ''-'' \<or> op = ''*'') \<and> arith l \<and> arith r)"
| "arith _ = False"

fun exact :: "Expression \<Rightarrow> int" where
  "exact (NumberLiteral tok v) = sint v"
| "exact (BinaryExpression tok (Some l) op (Some r)) =
     (if op = ''+'' then exact l + exact r
      else if op = ''-'' then exact l - exact r
      else exact l * exact r)"
| "exact _ = 0"

lemma evalBinaryExpression_arith:
  "op = ''+'' \<or> op = ''-'' \<or> op = ''*'' \<Longrightarrow>
   evalBinaryExpression i tok (IntObject a) op (IntObject b) =
     (Value (IntObject (if op = ''+'' then a + b else if op = ''-'' then a - b else a * b)), i)"
  by (elim disjE) simp_all

lemma evalExpression_arith:
  "arith e \<Longrightarrow> evalExpression i (Some e) = (Value (IntObject (word_of_int (exact e))), i)"
proof (induction e arbitrary: i rule: arith.induct)
  case (2 tok l op r)
  then have ops: "op = ''+'' \<or> op = ''-'' \<or> op = ''*''" and "arith l" and "arith r"
    by simp_all
  then have l: "evalExpression i (Some l) = (Value (IntObject (word_of_int (exact l))), i)"
    and r: "evalExpression i (Some r) = (Value (IntObject (word_of_int (exact r))), i)"
    using "2.IH" by simp_all
  show ?case
    by (simp add: l r evalBinaryExpression_arith [OF ops] del: evalBinaryExpression.simps)
qed simp_all

text \<open>
  C1 (code defect). A failure of evaluation is meant to be the nil result, never the end
  of the process. Taking the remainder by zero is not such a failure: unlike the branch
  for \<open>/\<close>, the branch for \<open>%\<close> has no test for a zero divisor, so Go panics and a
  print statement with such an expression ends the run.
\<close>

theorem modulo_by_zero_panics:
  "evalStatement i
     (PrintStatement tok
        (Some (BinaryExpression otok (Some (NumberLiteral ltok a)) ''%''
                 (Some (NumberLiteral rtok 0))))) = Panic i"
  by simp

text \<open>
  C4, as stated, fails: \<open>9223372036854775807 + 1\<close> is an expression of the fragment, its
  exact value is \<open>9223372036854775808\<close>, and the statement prints
  \<open>-9223372036854775808\<close>.
\<close>

theorem print_arith_exact_counterexample:
  "arith (BinaryExpression \<lparr>Type = PLUS, Literal = ''+'', Line = 1, Column = 27\<rparr>
            (Some (NumberLiteral \<lparr>Type = INT_TOK, Literal = ''9223372036854775807'', Line = 1, Column = 26\<rparr>
                     9223372036854775807))
            ''+''
            (Some (NumberLiteral \<lparr>Type = INT_TOK, Literal = ''1'', Line = 1, Column = 29\<rparr> 1)))
   \<and> exact (BinaryExpression \<lparr>Type = PLUS, Literal = ''+'', Line = 1, Column = 27\<rparr>
            (Some (NumberLiteral \<lparr>Type = INT_TOK, Literal = ''9223372036854775807'', Line = 1, Column = 26\<rparr>
                     9223372036854775807))
            ''+''
            (Some (NumberLiteral \<lparr>Type = INT_TOK, Literal = ''1'', Line = 1, Column = 29\<rparr> 1)))
       = 9223372036854775808
   \<and> evalStatement (NewInterpreter [])
         (PrintStatement \<lparr>Type = SUNA, Literal = ''suna'', Line = 1, Column = 6\<rparr>
            (Some (BinaryExpression \<lparr>Type = PLUS, Literal = ''+'', Line = 1, Column = 27\<rparr>
              (Some (NumberLiteral \<lparr>Type = INT_TOK, Literal = ''9223372036854775807'', Line = 1, Column = 26\<rparr>
                       9223372036854775807))
              ''+''
              (Some (NumberLiteral \<lparr>Type = INT_TOK, Literal = ''1'', Line = 1, Column = 29\<rparr> 1)))))
       = Returned (NewInterpreter ''-9223372036854775808\<newline>'')"
  by (simp add: show_eval NewInterpreter_def)

text \<open>
  C4, amended. For every expression built from integer literals, \<open>+\<close>, \<open>-\<close> and \<open>*\<close>,
  the print statement returns having written exactly one line: the decimal form of the
  exact result reduced into the signed 64-bit range (the line itself holds no line
  break). That is the exact result whenever the exact result lies in
  \<open>-2^63 .. 2^63 - 1\<close>, whatever the intermediate results were.
\<close>

theorem print_arith_wraps:
  "arith e \<Longrightarrow>
     evalStatement i (PrintStatement tok (Some e)) =
       Returned (printf i (showInt (sint (word_of_int (exact e) :: int64)) @ [CHR 0x0A]))
     \<and> CHR 0x0A \<notin> set (showInt (sint (word_of_int (exact e) :: int64)))
     \<and> (- (2 ^ 63) \<le> exact e \<and> exact e < 2 ^ 63 \<longrightarrow>
          sint (word_of_int (exact e) :: int64) = exact e)"
  by (simp add: evalExpression_arith showInt_no_newline signed_take_bit_int_eq_self
      sint_sbintrunc')

theorem print_arith_wraps_witness:
  "arith (BinaryExpression \<lparr>Type = PLUS, Literal = ''+'', Line = 1, Column = 8\<rparr>
            (Some (NumberLiteral \<lparr>Type = INT_TOK, Literal = ''2'', Line = 1, Column = 8\<rparr> 2))
            ''+''
            (Some (BinaryExpression \<lparr>Type = ASTERISK, Literal = ''*'', Line = 1, Column = 10\<rparr>
               (Some (NumberLiteral \<lparr>Type = INT_TOK, Literal = ''3'', Line = 1, Column = 10\<rparr> 3))
               ''*''
               (Some (NumberLiteral \<lparr>Type = INT_TOK, Literal = ''4'', Line = 1, Column = 11\<rparr> 4)))))
   \<and> evalStatement (NewInterpreter [])
         (PrintStatement \<lparr>Type = SUNA, Literal = ''suna'', Line = 1, Column = 6\<rparr>
            (Some (BinaryExpression \<lparr>Type = PLUS, Literal = ''+'', Line = 1, Column = 8\<rparr>
              (Some (NumberLiteral \<lparr>Type = INT_TOK, Literal = ''2'', Line = 1, Column = 8\<rparr> 2))
              ''+''
              (Some (BinaryExpression \<lparr>Type = ASTERISK, Literal = ''*'', Line = 1, Column = 10\<rparr>
                 (Some (NumberLiteral \<lparr>Type = INT_TOK, Literal = ''3'', Line = 1, Column = 10\<rparr> 3))
                 ''*''
                 (Some (NumberLiteral \<lparr>Type = INT_TOK, Literal = ''4'', Line = 1, Column = 11\<rparr> 4)))))))
       = Returned (NewInterpreter ''14\<newline>'')"
  using print_arith_wraps [of
      "BinaryExpression \<lparr>Type = PLUS, Literal = ''+'', Line = 1, Column = 8\<rparr>
            (Some (NumberLiteral \<lparr>Type = INT_TOK, Literal = ''2'', Line = 1, Column = 8\<rparr> 2))
            ''+''
            (Some (BinaryExpression \<lparr>Type = ASTERISK, Literal = ''*'', Line = 1, Column = 10\<rparr>
               (Some (NumberLiteral \<lparr>Type = INT_TOK, Literal = ''3'', Line = 1, Column = 10\<rparr> 3))
               ''*''
               (Some (NumberLiteral \<lparr>Type = INT_TOK, Literal = ''4'', Line = 1, Column = 11\<rparr> 4))))"
      "NewInterpreter []" "\<lparr>Type = SUNA, Literal = ''suna'', Line = 1, Column = 6\<rparr>"]
  by (simp add: show_eval NewInterpreter_def)


subsection \<open>Division by zero\<close>

text \<open>An evaluation that does not end in nil has written nothing.\<close>

lemma evalBinaryExpression_silent':
  "fst (evalBinaryExpression i tok a op b) \<noteq> Nil \<longrightarrow> snd (evalBinaryExpression i tok a op b) = i"
  by (cases a; cases b) (simp_all add: invalidOperation_def)

lemma evalBinaryExpression_silent:
  "fst (evalBinaryExpression i tok a op b) \<noteq> Nil \<Longrightarrow> snd (evalBinaryExpression i tok a op b) = i"
  using evalBinaryExpression_silent' by blast

lemma evalExpression_silent:
  "fst (evalExpression i e) \<noteq> Nil \<Longrightarrow> snd (evalExpression i e) = i"
proof (induction i e rule: evalExpression.induct)
  case (5 i tok l op r)
  obtain res1 i1 where l: "evalExpression i l = (res1, i1)"
    by (cases "evalExpression i l")
  show ?case
  proof (cases res1)
    case (Value left)
    have i1: "i1 = i"
      using "5.IH"(1) l Value by simp
    obtain res2 i2 where r: "evalExpression i1 r = (res2, i2)"
      by (cases "evalExpression i1 r")
    show ?thesis
    proof (cases res2)
      case (Value right)
      have i2: "i2 = i1"
        using "5.IH"(2) [OF l [symmetric] \<open>res1 = Value left\<close>] r Value by simp
      have "fst (evalBinaryExpression i tok left op right) \<noteq> Nil"
        using "5.prems" l r \<open>res1 = Value left\<close> Value i1 i2 by simp
      then have "snd (evalBinaryExpression i tok left op right) = i"
        by (rule evalBinaryExpression_silent)
      then show ?thesis
        using l r \<open>res1 = Value left\<close> Value i1 i2 by simp
    next
      case Nil
      then show ?thesis
        using "5.prems" l r \<open>res1 = Value left\<close> by simp
    next
      case Panicked
      have "i2 = i1"
        using "5.IH"(2) [OF l [symmetric] \<open>res1 = Value left\<close>] r Panicked by simp
      then show ?thesis
        using l r \<open>res1 = Value left\<close> Panicked i1 by simp
    qed
  next
    case Nil
    then show ?thesis using "5.prems" l by simp
  next
    case Panicked
    then show ?thesis using "5.IH"(1) l by simp
  qed
qed (simp_all split: option.splits)

text \<open>
  \<open>divisionByZero i e\<close> follows the evaluation of \<open>e\<close> from the state \<open>i\<close>, left operand
  first, and yields the operator token of the first \<open>/\<close> it evaluates whose two operands
  have evaluated to integers, the right one to zero; \<open>None\<close> when the evaluation meets no
  such division. The division may be \<open>e\<close> itself or lie anywhere inside it.
\<close>

function divisionByZero :: "Interpreter \<Rightarrow> Expression option \<Rightarrow> Token option" where
  "divisionByZero i None = None"
| "divisionByZero i (Some (NumberLiteral tok v)) = None"
| "divisionByZero i (Some (StringLiteral tok v)) = None"
| "divisionByZero i (Some (Identifier tok name)) = None"
| "divisionByZero i (Some (BinaryExpression tok l op r)) =
     (case divisionByZero i l of
        Some t \<Rightarrow> Some t
      | None \<Rightarrow>
          (case evalExpression i l of
             (Value left, i1) \<Rightarrow>
               (case divisionByZero i1 r of
                  Some t \<Rightarrow> Some t
                | None \<Rightarrow>
                    (case evalExpression i1 r of
                       (Value right, i2) \<Rightarrow>
                         (case (left, right) of
                            (IntObject a, IntObject b) \<Rightarrow>
                              if op = ''/'' \<and> b = 0 then Some tok else None
                          | _ \<Rightarrow> None)
                     | _ \<Rightarrow> None))
           | _ \<Rightarrow> None))"
  by pat_completeness auto
termination
  by (relation "measure (\<lambda>(i, e). case e of None \<Rightarrow> 0 | Some x \<Rightarrow> Suc (size x))")
     (auto split: option.splits)

definition divisionDiagnostic :: "Token \<Rightarrow> string" where
  "divisionDiagnostic otok = errorAt (Line otok) (Column otok) ''Division by zero ''"

lemma divisionByZero_Nil:
  "divisionByZero i e = Some otok \<Longrightarrow>
     evalExpression i e = (Nil, printf i (divisionDiagnostic otok))"
proof (induction i e rule: divisionByZero.induct)
  case (5 i tok l op r)
  show ?case
  proof (cases "divisionByZero i l")
    case (Some t)
    then have "t = otok" using "5.prems" by simp
    then have "evalExpression i l = (Nil, printf i (divisionDiagnostic otok))"
      using "5.IH"(1) Some by simp
    then show ?thesis by simp
  next
    case None
    note dl = this
    obtain res1 i1 where l: "evalExpression i l = (res1, i1)"
      by (cases "evalExpression i l")
    show ?thesis
    proof (cases res1)
      case (Value left)
      note v1 = this
      have i1: "i1 = i"
        using evalExpression_silent [of i l] l Value by simp
      show ?thesis
      proof (cases "divisionByZero i1 r")
        case (Some t)
        then have "t = otok" using "5.prems" dl l v1 by simp
        then have "evalExpression i1 r = (Nil, printf i1 (divisionDiagnostic otok))"
          using "5.IH"(2) [OF dl l [symmetric] v1] Some by simp
        then show ?thesis using l v1 i1 by simp
      next
        case None
        note dr = this
        obtain res2 i2 where r: "evalExpression i1 r = (res2, i2)"
          by (cases "evalExpression i1 r")
        show ?thesis
        proof (cases res2)
          case (Value right)
          have i2: "i2 = i"
            using evalExpression_silent [of i1 r] r Value i1 by simp
          have sel: "(case (left, right) of
                 (IntObject a, IntObject b) \<Rightarrow> if op = ''/'' \<and> b = 0 then Some tok else None
               | _ \<Rightarrow> None) = Some otok"
            using "5.prems" dl dr l r v1 Value by simp
          then obtain a where "left = IntObject a" "right = IntObject 0" "op = ''/''" "tok = otok"
            by (cases left; cases right) (auto split: if_splits)
          then show ?thesis
            using l r v1 Value i1 i2 by (simp add: divisionDiagnostic_def)
        next
          case Nil
          then show ?thesis using "5.prems" dl dr l r v1 by simp
        next
          case Panicked
          then show ?thesis using "5.prems" dl dr l r v1 by simp
        qed
      qed
    next
      case Nil
      then show ?thesis using "5.prems" dl l by simp
    next
      case Panicked
      then show ?thesis using "5.prems" dl l by simp
    qed
  qed
qed simp_all

lemma divisionByZero_direct:
  assumes "evalExpression i l = (Value (IntObject a), i1)"
    and "evalExpression i1 r = (Value (IntObject 0), i2)"
  shows "divisionByZero i (Some (BinaryExpression otok l ''/'' r)) = Some otok"
proof -
  have "divisionByZero i l = None"
  proof (cases "divisionByZero i l")
    case (Some t)
    then show ?thesis using divisionByZero_Nil [of i l t] assms(1) by simp
  qed simp
  moreover have "divisionByZero i1 r = None"
  proof (cases "divisionByZero i1 r")
    case (Some t)
    then show ?thesis using divisionByZero_Nil [of i1 r t] assms(2) by simp
  qed simp
  ultimately show ?thesis using assms by simp
qed

text \<open>
  C6, as stated, fails: a print statement that divides by zero writes two diagnostics,
  not one. The evaluator reports the division at the position of the operator, and the
  statement then reports the failed expression at its own position. The statement is
  the one parsed from \<open>suna 1/0\<close>.
\<close>

theorem division_by_zero_one_diagnostic_counterexample:
  "evalStatement (NewInterpreter [])
     (PrintStatement \<lparr>Type = SUNA, Literal = ''suna'', Line = 1, Column = 6\<rparr>
        (Some (BinaryExpression \<lparr>Type = SLASH, Literal = ''/'', Line = 1, Column = 8\<rparr>
           (Some (NumberLiteral \<lparr>Type = INT_TOK, Literal = ''1'', Line = 1, Column = 8\<rparr> 1))
           ''/''
           (Some (NumberLiteral \<lparr>Type = INT_TOK, Literal = ''0'', Line = 1, Column = 9\<rparr> 0)))))
   = Returned (NewInterpreter
       (''Error at line 1, col 8: Division by zero \<newline>''
        @ ''Error at line 1, col 6: Invalid expression in print \<newline>''))"
  by (simp add: show_eval NewInterpreter_def)

text \<open>
  C6, amended. Whenever the evaluation of the expression \<open>e\<close> of a statement, started in
  the state \<open>i\<close>, evaluates a division of two integers by zero (\<open>e\<close> itself or a part of
  it), then: the evaluation of \<open>e\<close> yields nil and has written exactly one line to \<open>i\<close>,
  the diagnostic \<open>Division by zero\<close> at the position of that operator; the enclosing
  print statement, assignment or if statement returns (it does not panic) in the state
  \<open>i\<close> with that line and one further diagnostic of its own, at the statement's
  position, appended: two diagnostics in all, no output line, the environment as it
  was; and the statements after it are executed from that state.
\<close>

theorem division_by_zero_reported:
  "divisionByZero i (Some e) = Some otok \<Longrightarrow>
     evalExpression i (Some e) = (Nil, printf i (divisionDiagnostic otok))
     \<and> evalStatement i (PrintStatement tok (Some e)) =
         Returned (printf (printf i (divisionDiagnostic otok))
           (errorAt (Line tok) (Column tok) ''Invalid expression in print ''))
     \<and> evalStatement i (AssignmentStatement tok (Some name) (Some e)) =
         Returned (printf (printf i (divisionDiagnostic otok))
           (errorAt (Line tok) (Column tok) ''Invalid expression in assignment ''))
     \<and> evalStatement i (IfStatement tok (Some e) (Some cons) alt) =
         Returned (printf (printf i (divisionDiagnostic otok))
           (errorAt (Line tok) (Column tok) ''Invalid condition in if ''))
     \<and> evalStatements i (PrintStatement tok (Some e) # rest) =
         evalStatements (printf (printf i (divisionDiagnostic otok))
           (errorAt (Line tok) (Column tok) ''Invalid expression in print '')) rest
     \<and> evalStatements i (AssignmentStatement tok (Some name) (Some e) # rest) =
         evalStatements (printf (printf i (divisionDiagnostic otok))
           (errorAt (Line tok) (Column tok) ''Invalid expression in assignment '')) rest
     \<and> evalStatements i (IfStatement tok (Some e) (Some cons) alt # rest) =
         evalStatements (printf (printf i (divisionDiagnostic otok))
           (errorAt (Line tok) (Column tok) ''Invalid condition in if '')) rest"
proof -
  assume "divisionByZero i (Some e) = Some otok"
  then have ev: "evalExpression i (Some e) = (Nil, printf i (divisionDiagnostic otok))"
    by (rule divisionByZero_Nil)
  have p: "evalStatement i (PrintStatement tok (Some e)) =
         Returned (printf (printf i (divisionDiagnostic otok))
           (errorAt (Line tok) (Column tok) ''Invalid expression in print ''))"
    by (simp add: ev)
  have a: "evalStatement i (AssignmentStatement tok (Some name) (Some e)) =
         Returned (printf (printf i (divisionDiagnostic otok))
           (errorAt (Line tok) (Column tok) ''Invalid expression in assignment ''))"
    by (simp add: ev)
  have c: "evalStatement i (IfStatement tok (Some e) (Some cons) alt) =
         Returned (printf (printf i (divisionDiagnostic otok))
           (errorAt (Line tok) (Column tok) ''Invalid condition in if ''))"
  proof (cases cons)
    case (BlockStatement ctok cstmts)
    show ?thesis
    proof (cases alt)
      case None
      then show ?thesis using BlockStatement by (simp add: ev)
    next
      case (Some ablock)
      then show ?thesis using BlockStatement by (cases ablock) (simp add: ev)
    qed
  qed
  show ?thesis
    using ev p a c by (simp del: evalStatement.simps)
qed

text \<open>
  The witness is the program parsed from \<open>sun x = 2 + 1/0; suna 5\<close>: the division is
  the right operand of the sum, the statement is an assignment, and \<open>5\<close> is printed
  after the two diagnostics.
\<close>

theorem division_by_zero_reported_witness:
  "divisionByZero (NewInterpreter [])
      (Some (BinaryExpression \<lparr>Type = PLUS, Literal = ''+'', Line = 1, Column = 12\<rparr>
         (Some (NumberLiteral \<lparr>Type = INT_TOK, Literal = ''2'', Line = 1, Column = 11\<rparr> 2))
         ''+''
         (Some (BinaryExpression \<lparr>Type = SLASH, Literal = ''/'', Line = 1, Column = 15\<rparr>
            (Some (NumberLiteral \<lparr>Type = INT_TOK, Literal = ''1'', Line = 1, Column = 15\<rparr> 1))
            ''/''
            (Some (NumberLiteral \<lparr>Type = INT_TOK, Literal = ''0'', Line = 1, Column = 17\<rparr> 0))))))
     = Some \<lparr>Type = SLASH, Literal = ''/'', Line = 1, Column = 15\<rparr>
   \<and> evalStatements (NewInterpreter [])
        [AssignmentStatement \<lparr>Type = SUN, Literal = ''sun'', Line = 1, Column = 5\<rparr>
           (Some (\<lparr>Type = IDENT, Literal = ''x'', Line = 1, Column = 7\<rparr>, ''x''))
           (Some (BinaryExpression \<lparr>Type = PLUS, Literal = ''+'', Line = 1, Column = 12\<rparr>
              (Some (NumberLiteral \<lparr>Type = INT_TOK, Literal = ''2'', Line = 1, Column = 11\<rparr> 2))
              ''+''
              (Some (BinaryExpression \<lparr>Type = SLASH, Literal = ''/'', Line = 1, Column = 15\<rparr>
                 (Some (NumberLiteral \<lparr>Type = INT_TOK, Literal = ''1'', Line = 1, Column = 15\<rparr> 1))
                 ''/''
                 (Some (NumberLiteral \<lparr>Type = INT_TOK, Literal = ''0'', Line = 1, Column = 17\<rparr> 0)))))),
         PrintStatement \<lparr>Type = SUNA, Literal = ''suna'', Line = 1, Column = 23\<rparr>
           (Some (NumberLiteral \<lparr>Type = INT_TOK, Literal = ''5'', Line = 1, Column = 24\<rparr> 5))]
     = Returned (NewInterpreter
         (''Error at line 1, col 15: Division by zero \<newline>''
          @ ''Error at line 1, col 5: Invalid expression in assignment \<newline>''
          @ ''5\<newline>''))"
proof -
  let ?i = "NewInterpreter []"
  let ?e = "BinaryExpression \<lparr>Type = PLUS, Literal = ''+'', Line = 1, Column = 12\<rparr>
         (Some (NumberLiteral \<lparr>Type = INT_TOK, Literal = ''2'', Line = 1, Column = 11\<rparr> 2))
         ''+''
         (Some (BinaryExpression \<lparr>Type = SLASH, Literal = ''/'', Line = 1, Column = 15\<rparr>
            (Some (NumberLiteral \<lparr>Type = INT_TOK, Literal = ''1'', Line = 1, Column = 15\<rparr> 1))
            ''/''
            (Some (NumberLiteral \<lparr>Type = INT_TOK, Literal = ''0'', Line = 1, Column = 17\<rparr> 0))))"
  let ?otok = "\<lparr>Type = SLASH, Literal = ''/'', Line = 1, Column = 15\<rparr>"
  let ?tok = "\<lparr>Type = SUN, Literal = ''sun'', Line = 1, Column = 5\<rparr>"
  let ?name = "(\<lparr>Type = IDENT, Literal = ''x'', Line = 1, Column = 7\<rparr>, ''x'')"
  let ?rest = "[PrintStatement \<lparr>Type = SUNA, Literal = ''suna'', Line = 1, Column = 23\<rparr>
              (Some (NumberLiteral \<lparr>Type = INT_TOK, Literal = ''5'', Line = 1, Column = 24\<rparr> 5))]"
  have h: "divisionByZero ?i (Some ?e) = Some ?otok"
    by simp
  have "evalStatements ?i (AssignmentStatement ?tok (Some ?name) (Some ?e) # ?rest) =
         evalStatements (printf (printf ?i (divisionDiagnostic ?otok))
           (errorAt (Line ?tok) (Column ?tok) ''Invalid expression in assignment '')) ?rest"
    using division_by_zero_reported [OF h, of ?tok ?name "BlockStatement ?tok []" None ?rest]
    by (elim conjE) assumption
  then show ?thesis
    using h by (simp add: show_eval divisionDiagnostic_def NewInterpreter_def)
qed

subsection \<open>Assignment\<close>

text \<open>
  For an assignment to \<open>name\<close>: if the expression evaluates to a value, the statement
  returns with \<open>name\<close> bound to it in the environment, nothing else changed; if the
  evaluation yields nil (which covers a missing expression), the statement writes a
  diagnostic and returns with the environment as it was, so an earlier binding of
  \<open>name\<close> is kept.
\<close>

lemma assignment_binds_or_keeps:
  "(evalExpression i vl = (Value v, i1) \<longrightarrow>
      evalStatement i (AssignmentStatement tok (Some (ntok, name)) vl) =
        Returned (i1\<lparr>env := (env i)(name \<mapsto> v)\<rparr>))
   \<and> (evalExpression i vl = (Nil, i1) \<longrightarrow>
      evalStatement i (AssignmentStatement tok (Some (ntok, name)) vl) =
        Returned (printf i1 (errorAt (Line tok) (Column tok)
          (if vl = None then ''Invalid assignment statement ''
           else ''Invalid expression in assignment '')))
      \<and> env (printf i1 (errorAt (Line tok) (Column tok)
          (if vl = None then ''Invalid assignment statement ''
           else ''Invalid expression in assignment ''))) = env i)"
proof (cases vl)
  case None
  then show ?thesis by (auto simp: printf_def)
next
  case (Some e)
  have "env (snd (evalExpression i (Some e))) = env i"
    by (rule env_evalExpression)
  then show ?thesis
    using Some by (auto simp: printf_def)
qed

text \<open>
  C8 (code defect, the one of C1). The evaluation of the expression of an assignment
  can also fail without yielding nil: the remainder by zero panics. Then the statement
  writes no diagnostic and does not return; the run ends there.
\<close>

theorem assignment_modulo_by_zero_panics:
  "evalExpression i
     (Some (BinaryExpression otok (Some (NumberLiteral ltok a)) ''%''
              (Some (NumberLiteral rtok 0)))) = (Panicked, i)
   \<and> evalStatement i
     (AssignmentStatement tok (Some (ntok, name))
        (Some (BinaryExpression otok (Some (NumberLiteral ltok a)) ''%''
                 (Some (NumberLiteral rtok 0))))) = Panic i
   \<and> evalStatements i
     (AssignmentStatement tok (Some (ntok, name))
        (Some (BinaryExpression otok (Some (NumberLiteral ltok a)) ''%''
                 (Some (NumberLiteral rtok 0)))) # rest) = Panic i"
  by simp


section \<open>Properties of the lexer\<close>

text \<open>
  C9. \<open>NextToken\<close> is a total function: every call returns one token and the next lexer
  state. Each call moves \<open>position\<close> strictly forward. Once \<open>position\<close> has reached the end
  of the input, every later call returns the end-of-input token, with the line and
  column the lexer had when the input ran out.
\<close>

theorem NextToken_advances_and_EOF_forever:
  "position (lexerAfter (New src) n) < position (lexerAfter (New src) (Suc n))
   \<and> (length src \<le> position (lexerAfter (New src) n) \<longrightarrow>
        (\<forall>m\<ge>n. fst (NextToken (lexerAfter (New src) m)) =
           \<lparr>Type = EOF, Literal = [], Line = line (lexerAfter (New src) n),
              Column = column (lexerAfter (New src) n)\<rparr>))"
proof (intro conjI impI allI)
  show "position (lexerAfter (New src) n) < position (lexerAfter (New src) (Suc n))"
    unfolding lexerAfter_Suc
    by (rule position_NextToken [OF lexer_inv_lexerAfter [OF lexer_inv_New]])
next
  fix m
  assume ex: "length src \<le> position (lexerAfter (New src) n)" and nm: "n \<le> m"
  let ?a = "lexerAfter (New src) n" and ?b = "lexerAfter (New src) m"
  have inv: "lexer_inv ?a" "lexer_inv ?b"
    by (simp_all add: lexer_inv_lexerAfter lexer_inv_New)
  have exa: "length (input ?a) \<le> position ?a"
    using ex by (simp add: input_lexerAfter input_New)
  have "position ?a \<le> position ?b"
    by (rule position_lexerAfter_mono [OF lexer_inv_New nm])
  then have exb: "length (input ?b) \<le> position ?b"
    using ex by (simp add: input_lexerAfter input_New)
  obtain k where m: "m = n + k"
    using nm by (auto simp: le_iff_add)
  have split: "lexerAfter lxr (n + k) = lexerAfter (lexerAfter lxr n) k" for lxr
    by (induction n arbitrary: lxr) simp_all
  have "line ?b = line ?a \<and> column ?b = column ?a"
    unfolding m split by (rule exhausted_lexerAfter [OF inv(1) exa])
  then show "fst (NextToken ?b) =
      \<lparr>Type = EOF, Literal = [], Line = line ?a, Column = column ?a\<rparr>"
    by (simp add: exhausted_EOF [OF inv(2) exb])
qed

theorem NextToken_advances_and_EOF_forever_witness:
  "length ''ab'' \<le> position (lexerAfter (New ''ab'') (Suc 0))
   \<and> Suc 0 \<le> Suc (Suc (Suc 0))
   \<and> fst (NextToken (lexerAfter (New ''ab'') (Suc (Suc (Suc 0))))) =
       \<lparr>Type = EOF, Literal = [], Line = 1, Column = 3\<rparr>
   \<and> position (lexerAfter (New ''ab'') (Suc 0)) < position (lexerAfter (New ''ab'') (Suc (Suc 0)))"
  using NextToken_advances_and_EOF_forever [of "''ab''" "Suc 0"]
  by (simp add: lexer_eval cong: let_weak_cong del: One_nat_def)

text \<open>
  C3 (code defect). The position recorded in a token is not that of its first
  character. \<open>readChar\<close> counts the column up for the character it has just read, and
  the branches for multi-character tokens overwrite the position noted on entry with
  the one reached after the token. Each of the inputs below starts with its token, at
  line 1, column 1; the recorded column is 2 for \<open>+\<close>, and for the longer tokens it is
  the column after the token, on the next line when a line break follows.
\<close>

theorem token_position_is_after_the_token:
  "fst (NextToken (New ''+'')) = \<lparr>Type = PLUS, Literal = ''+'', Line = 1, Column = 2\<rparr>
   \<and> fst (NextToken (New ''ab'')) = \<lparr>Type = IDENT, Literal = ''ab'', Line = 1, Column = 3\<rparr>
   \<and> fst (NextToken (New ''42 '')) = \<lparr>Type = INT_TOK, Literal = ''42'', Line = 1, Column = 4\<rparr>
   \<and> fst (NextToken (New ''== 1'')) = \<lparr>Type = EQ, Literal = ''=='', Line = 1, Column = 3\<rparr>
   \<and> fst (NextToken (New [CHR 0x22, CHR ''h'', CHR ''i'', CHR 0x22])) =
       \<lparr>Type = STRING, Literal = ''hi'', Line = 1, Column = 5\<rparr>
   \<and> fst (NextToken (New ''ab\<newline>'')) = \<lparr>Type = IDENT, Literal = ''ab'', Line = 2, Column = 1\<rparr>"
  by (simp add: lexer_eval cong: let_weak_cong del: One_nat_def)

section \<open>Rules for running the parser and the interpreter on a given state\<close>

text \<open>
  As for the lexer: the defining equations at a parser state given by its fields, and
  those of the bounded functions at a numeral.
\<close>

lemmas nextToken_eval = nextToken_def [of "\<lparr>stdout = out, lx = l, curToken = c, peekToken = k, Debug = d\<rparr>"] for out l c k d
lemmas remaining_eval = remaining_def [of "\<lparr>stdout = out, lx = l, curToken = c, peekToken = k, Debug = d\<rparr>"] for out l c k d
lemmas parsePrimary_eval = parsePrimary_def [of "\<lparr>stdout = out, lx = l, curToken = c, peekToken = k, Debug = d\<rparr>"] for out l c k d
lemmas errorAtCur_eval = errorAtCur_def [of "\<lparr>stdout = out, lx = l, curToken = c, peekToken = k, Debug = d\<rparr>"] for out l c k d
lemmas continues_eval = continues_def [of "\<lparr>stdout = out, lx = l, curToken = c, peekToken = k, Debug = d\<rparr>"] for out l c k d
lemmas getCurrentPrecedence_eval = getCurrentPrecedence_def [of "\<lparr>stdout = out, lx = l, curToken = c, peekToken = k, Debug = d\<rparr>"] for out l c k d
lemmas skipSemicolons_eval = skipSemicolons.simps [of "\<lparr>stdout = out, lx = l, curToken = c, peekToken = k, Debug = d\<rparr>"] for out l c k d
lemmas parsePrintStatement_eval = parsePrintStatement_def [of _ "\<lparr>stdout = out, lx = l, curToken = c, peekToken = k, Debug = d\<rparr>"] for out l c k d
lemmas parseStatement_eval = parseStatement.simps [of _ "\<lparr>stdout = out, lx = l, curToken = c, peekToken = k, Debug = d\<rparr>"] for out l c k d
lemmas parseIfStatement_eval = parseIfStatement.simps [of _ "\<lparr>stdout = out, lx = l, curToken = c, peekToken = k, Debug = d\<rparr>"] for out l c k d
lemmas parseBlockStatement_eval = parseBlockStatement.simps [of _ "\<lparr>stdout = out, lx = l, curToken = c, peekToken = k, Debug = d\<rparr>"] for out l c k d
lemmas ParseProgram_eval = ParseProgram_def [of "\<lparr>stdout = out, lx = l, curToken = c, peekToken = k, Debug = d\<rparr>"] for out l c k d
lemmas parseExpression_eval = parseExpression.simps(2) [where n = "pred_numeral m" and p = "\<lparr>stdout = out, lx = l, curToken = c, peekToken = k, Debug = d\<rparr>", folded numeral_eq_Suc] for m out l c k d
lemmas parseExpressionLoop_eval = parseExpressionLoop.simps(2) [where n = "pred_numeral m" and p = "\<lparr>stdout = out, lx = l, curToken = c, peekToken = k, Debug = d\<rparr>", folded numeral_eq_Suc] for m out l c k d
lemmas parseBlockLoop_eval = parseBlockLoop.simps(2) [where n = "pred_numeral m" and p = "\<lparr>stdout = out, lx = l, curToken = c, peekToken = k, Debug = d\<rparr>", folded numeral_eq_Suc] for m out l c k d
lemmas ParseProgramLoop_eval = ParseProgramLoop.simps(2) [where n = "pred_numeral m" and p = "\<lparr>stdout = out, lx = l, curToken = c, peekToken = k, Debug = d\<rparr>", folded numeral_eq_Suc] for m out l c k d

lemmas parser_eval = NewParser_def nextToken_eval ParseProgram_eval remaining_eval
  parsePrimary_eval ParseInt_def decimalValue_def errorAtCur_eval errorAt_def printf_def
  showNat_def showInt_def showDigits.simps showToken_def
  continues_eval getCurrentPrecedence_eval getPrecedence_def isOperator_def
  LOWEST_def EQUALS_def LESSGREATER_def SUM_PREC_def PRODUCT_def
  parsePrintStatement_eval skipSemicolons_eval parseStatement_eval parseIfStatement_eval
  parseBlockStatement_eval parseExpression_eval parseExpressionLoop_eval parseBlockLoop_eval
  ParseProgramLoop_eval

lemmas interp_eval = run_def NewInterpreter_def isTruthy_def quo_def rem_def boolToInt_def
  invalidOperation_def

section \<open>Termination of the parser\<close>

text \<open>
  Outputs leave what remains to be read as it is; \<open>parsePrimary\<close> and the loop over
  semicolons do not increase it.
\<close>

lemma remaining_printf [simp]: "remaining (printf p s) = remaining p"
  by (simp add: remaining_def printf_def)

lemma remaining_errorAtCur [simp]: "remaining (errorAtCur p msg) = remaining p"
  by (simp add: errorAtCur_def)

lemma curToken_errorAtCur [simp]: "curToken (errorAtCur p msg) = curToken p"
  by (simp add: errorAtCur_def printf_def)

lemma remaining_nextToken_printf [simp]:
  "remaining (nextToken (printf p s)) = remaining (nextToken p)"
  by (simp add: remaining_def nextToken_def printf_def split_beta)

lemma remaining_nextToken_errorAtCur [simp]:
  "remaining (nextToken (errorAtCur p msg)) = remaining (nextToken p)"
  by (simp add: errorAtCur_def)



text \<open>
  \<open>returns res p\<close>: the call has returned, in a parser state with no more left to read
  than \<open>p\<close> had.
\<close>

definition returns :: "('a \<times> Parser) option \<Rightarrow> Parser \<Rightarrow> bool" where
  "returns res p = (\<exists>r p'. res = Some (r, p') \<and> remaining p' \<le> remaining p)"

lemma returnsI: "res = Some (r, p') \<Longrightarrow> remaining p' \<le> remaining p \<Longrightarrow> returns res p"
  by (auto simp: returns_def)


declare parseExpression.simps [simp del] parseExpressionLoop.simps [simp del]
  parseStatement.simps [simp del] parseIfStatement.simps [simp del]
  parseBlockStatement.simps [simp del] parseBlockLoop.simps [simp del]
  ParseProgramLoop.simps [simp del]


















lemma curToken_printf [simp]: "curToken (printf p s) = curToken p"
  by (simp add: printf_def)









section \<open>Precedence of operators\<close>

text \<open>
  \<open>above q e\<close>: if \<open>e\<close> is a binary expression, its operator binds more tightly than
  level \<open>q\<close>; \<open>atLeast q e\<close>: at least as tightly. \<open>climbed e\<close>: throughout \<open>e\<close>, the left
  operand of an operator binds at least as tightly as the operator and the right
  operand more tightly, so that operators of one level nest to the left.
\<close>

fun above :: "nat \<Rightarrow> Expression \<Rightarrow> bool" where
  "above q (BinaryExpression tok l op r) = (q < getPrecedence (Type tok))"
| "above q e = True"

fun atLeast :: "nat \<Rightarrow> Expression \<Rightarrow> bool" where
  "atLeast q (BinaryExpression tok l op r) = (q \<le> getPrecedence (Type tok))"
| "atLeast q e = True"

fun climbed :: "Expression \<Rightarrow> bool" where
  "climbed (BinaryExpression tok (Some l) op (Some r)) =
     (isOperator (Type tok) \<and> op = Literal tok
      \<and> atLeast (getPrecedence (Type tok)) l \<and> above (getPrecedence (Type tok)) r
      \<and> climbed l \<and> climbed r)"
| "climbed (BinaryExpression tok None op r) = False"
| "climbed (BinaryExpression tok (Some l) op None) = False"
| "climbed e = True"

text \<open>\<open>goesOn p q\<close>: the loop of \<open>parseExpression\<close> at level \<open>q\<close> takes another operator.\<close>

definition goesOn :: "Parser \<Rightarrow> nat \<Rightarrow> bool" where
  "goesOn p q = (continues p q \<and> isOperator (Type (curToken p)))"

fun stopped :: "Parser \<Rightarrow> Expression \<Rightarrow> bool" where
  "stopped p (BinaryExpression tok l op r) = (\<not> goesOn p (getPrecedence (Type tok)))"
| "stopped p e = True"

lemma goesOn_atLeast:
  assumes "goesOn p q" and "stopped p left"
  shows "atLeast (getPrecedence (Type (curToken p))) left"
proof (cases left)
  case (BinaryExpression tok l op r)
  then have "\<not> goesOn p (getPrecedence (Type tok))" using assms(2) by simp
  then have "\<not> getPrecedence (Type tok) < getCurrentPrecedence p"
    using assms(1) by (simp add: goesOn_def continues_def)
  then show ?thesis
    using BinaryExpression by (simp add: getPrecedence_def getCurrentPrecedence_def)
qed simp_all

lemma parsePrimary_atom:
  assumes "parsePrimary p = (Some left, p1)"
  shows "climbed left \<and> above q left \<and> stopped p1 left"
proof -
  consider (int) "Type (curToken p) = INT_TOK" | (str) "Type (curToken p) = STRING"
    | (id) "Type (curToken p) = IDENT"
    | (other) "Type (curToken p) \<noteq> INT_TOK" "Type (curToken p) \<noteq> STRING" "Type (curToken p) \<noteq> IDENT"
    by blast
  then show ?thesis
  proof cases
    case int
    then show ?thesis
      using assms by (auto simp: parsePrimary_def split: option.splits)
  next
    case str
    then show ?thesis using assms by (auto simp: parsePrimary_def)
  next
    case id
    then show ?thesis using assms by (auto simp: parsePrimary_def)
  next
    case other
    then have "fst (parsePrimary p) = None"
      by (cases "Type (curToken p)") (simp_all add: parsePrimary_def)
    then show ?thesis using assms by simp
  qed
qed

definition parsedWell :: "(Expression option \<times> Parser) option \<Rightarrow> nat \<Rightarrow> bool" where
  "parsedWell res q =
     (\<forall>e p'. res = Some (Some e, p') \<longrightarrow> climbed e \<and> above q e \<and> \<not> goesOn p' q)"

lemma parseExpressionLoop_climbs_step:
  assumes pe: "\<And>p q. parsedWell (parseExpression n p q) q"
    and pl: "\<And>p q left. climbed left \<Longrightarrow> above q left \<Longrightarrow> stopped p left \<Longrightarrow>
               parsedWell (parseExpressionLoop n p q left) q"
    and left: "climbed left" "above q left" "stopped p left"
  shows "parsedWell (parseExpressionLoop (Suc n) p q left) q"
proof -
  note eq = parseExpressionLoop.simps(2) [of n p q left]
  show ?thesis
  proof (cases "goesOn p q")
    case False
    then have "parseExpressionLoop (Suc n) p q left = Some (Some left, p)"
      by (auto simp: eq goesOn_def)
    then show ?thesis
      using False left by (simp add: parsedWell_def)
  next
    case True
    then have co: "continues p q" and isop: "isOperator (Type (curToken p))"
      by (simp_all add: goesOn_def)
    let ?op = "curToken p"
    let ?p1 = "nextToken p"
    let ?q1 = "getPrecedence (Type ?op)"
    have q1: "q < ?q1"
      using co by (simp add: continues_def getPrecedence_def getCurrentPrecedence_def)
    show ?thesis
    proof (cases "parseExpression n ?p1 ?q1")
      case None
      then show ?thesis
        using co isop by (simp add: eq Let_def parsedWell_def)
    next
      case (Some res)
      obtain r p2 where res: "res = (r, p2)" by (cases res)
      show ?thesis
      proof (cases r)
        case None
        then show ?thesis
          using co isop Some res by (simp add: eq Let_def parsedWell_def)
      next
        case (Some right)
        have r: "parseExpression n ?p1 ?q1 = Some (Some right, p2)"
          using \<open>parseExpression n ?p1 ?q1 = Some res\<close> res Some by simp
        then have right: "climbed right" "above ?q1 right" "\<not> goesOn p2 ?q1"
          using pe [of ?p1 ?q1] by (simp_all add: parsedWell_def)
        let ?left' = "BinaryExpression ?op (Some left) (Literal ?op) (Some right)"
        have "climbed ?left'"
          using left(1) right(1,2) isop goesOn_atLeast [OF True left(3)] by simp
        moreover have "above q ?left'" using q1 by simp
        moreover have "stopped p2 ?left'" using right(3) by simp
        ultimately have "parsedWell (parseExpressionLoop n p2 q ?left') q"
          by (rule pl)
        then show ?thesis
          using co isop r by (simp add: eq Let_def)
      qed
    qed
  qed
qed

lemma parseExpression_climbs_step:
  assumes pl: "\<And>p q left. climbed left \<Longrightarrow> above q left \<Longrightarrow> stopped p left \<Longrightarrow>
               parsedWell (parseExpressionLoop (Suc n) p q left) q"
  shows "parsedWell (parseExpression (Suc n) p q) q"
proof -
  note eq = parseExpression.simps(2) [of n p q]
  show ?thesis
  proof (cases "Type (curToken p) = MINUS")
    case True
    note mi = this
    let ?p1 = "nextToken p"
    show ?thesis
    proof (cases "Type (curToken ?p1) = INT_TOK")
      case False
      then show ?thesis
        using mi by (simp add: eq Let_def parsedWell_def)
    next
      case True
      show ?thesis
      proof (cases "ParseInt (Literal (curToken ?p1))")
        case None
        then show ?thesis
          using mi True by (simp add: eq Let_def parsedWell_def)
      next
        case (Some v)
        have "parsedWell (parseExpressionLoop (Suc n) (nextToken ?p1) q
            (NumberLiteral (curToken p) (- v))) q"
          by (rule pl) simp_all
        then show ?thesis
          using mi True Some by (simp add: eq Let_def)
      qed
    qed
  next
    case False
    obtain r p1 where pp: "parsePrimary p = (r, p1)"
      by (cases "parsePrimary p")
    show ?thesis
    proof (cases r)
      case None
      then show ?thesis
        using False pp by (simp add: eq parsedWell_def)
    next
      case (Some left)
      have "climbed left \<and> above q left \<and> stopped p1 left"
        using pp Some by (intro parsePrimary_atom) simp
      then have "parsedWell (parseExpressionLoop (Suc n) p1 q left) q"
        by (intro pl) simp_all
      then show ?thesis
        using False pp Some by (simp add: eq)
    qed
  qed
qed

lemma parseExpression_climbs_both:
  "(\<forall>p q. parsedWell (parseExpression n p q) q)
   \<and> (\<forall>p q left. climbed left \<longrightarrow> above q left \<longrightarrow> stopped p left \<longrightarrow>
        parsedWell (parseExpressionLoop n p q left) q)"
proof (induction n)
  case 0
  then show ?case by (simp add: parsedWell_def parseExpression.simps parseExpressionLoop.simps)
next
  case (Suc n)
  have pe: "parsedWell (parseExpression n p q) q" for p q
    using Suc by blast
  have pl0: "parsedWell (parseExpressionLoop n p q left) q"
    if "climbed left" "above q left" "stopped p left" for p q left
    using Suc that by blast
  have pl: "parsedWell (parseExpressionLoop (Suc n) p q left) q"
    if "climbed left" "above q left" "stopped p left" for p q left
    using pe pl0 that by (rule parseExpressionLoop_climbs_step)
  have "parsedWell (parseExpression (Suc n) p q) q" for p q
    using pl by (rule parseExpression_climbs_step)
  with pl show ?case by blast
qed

lemma parseExpression_climbs:
  "parseExpression n p q = Some (Some e, p') \<Longrightarrow> climbed e \<and> above q e \<and> \<not> goesOn p' q"
  using parseExpression_climbs_both [of n] by (simp add: parsedWell_def)

text \<open>
  C7. Whatever expression \<open>parseExpression\<close> returns, at whatever parser state and
  level it is called: each of its operators is one of the ten binary operators, the
  left operand of an operator binds at least as tightly as the operator and the right
  operand strictly more tightly (\<open>climbed\<close>), so a higher level binds tighter and
  operators of one level nest to the left; the expression as a whole binds more tightly
  than the level asked for, and the parser has stopped at a token that is no operator
  above that level. The levels are ordered equality, relational, additive,
  multiplicative. The two examples are parsed through \<open>ParseProgram\<close>.
\<close>

theorem parseExpression_climbs_precedence:
  "(parseExpression n p q = Some (Some e, p') \<longrightarrow> climbed e \<and> above q e \<and> \<not> goesOn p' q)
   \<and> LOWEST < EQUALS \<and> EQUALS < LESSGREATER \<and> LESSGREATER < SUM_PREC \<and> SUM_PREC < PRODUCT
   \<and> map getPrecedence [EQ, NOT_EQ] = [EQUALS, EQUALS]
   \<and> map getPrecedence [LT, GT, LE, GE] = [LESSGREATER, LESSGREATER, LESSGREATER, LESSGREATER]
   \<and> map getPrecedence [PLUS, MINUS] = [SUM_PREC, SUM_PREC]
   \<and> map getPrecedence [ASTERISK, SLASH] = [PRODUCT, PRODUCT]
   \<and> map_option fst (ParseProgram (NewParser (New ''suna a - b - c'') False)) =
       Some (Program
         [PrintStatement \<lparr>Type = SUNA, Literal = ''suna'', Line = 1, Column = 6\<rparr>
           (Some (BinaryExpression \<lparr>Type = MINUS, Literal = ''-'', Line = 1, Column = 13\<rparr>
             (Some (BinaryExpression \<lparr>Type = MINUS, Literal = ''-'', Line = 1, Column = 9\<rparr>
               (Some (Identifier \<lparr>Type = IDENT, Literal = ''a'', Line = 1, Column = 8\<rparr> ''a''))
               ''-''
               (Some (Identifier \<lparr>Type = IDENT, Literal = ''b'', Line = 1, Column = 12\<rparr> ''b''))))
             ''-''
             (Some (Identifier \<lparr>Type = IDENT, Literal = ''c'', Line = 1, Column = 15\<rparr> ''c''))))])
   \<and> map_option fst (ParseProgram (NewParser (New ''suna a + b * c'') False)) =
       Some (Program
         [PrintStatement \<lparr>Type = SUNA, Literal = ''suna'', Line = 1, Column = 6\<rparr>
           (Some (BinaryExpression \<lparr>Type = PLUS, Literal = ''+'', Line = 1, Column = 9\<rparr>
             (Some (Identifier \<lparr>Type = IDENT, Literal = ''a'', Line = 1, Column = 8\<rparr> ''a''))
             ''+''
             (Some (BinaryExpression \<lparr>Type = ASTERISK, Literal = ''*'', Line = 1, Column = 13\<rparr>
               (Some (Identifier \<lparr>Type = IDENT, Literal = ''b'', Line = 1, Column = 12\<rparr> ''b''))
               ''*''
               (Some (Identifier \<lparr>Type = IDENT, Literal = ''c'', Line = 1, Column = 15\<rparr> ''c''))))))])"
proof (intro conjI impI)
  assume "parseExpression n p q = Some (Some e, p')"
  then have "climbed e \<and> above q e \<and> \<not> goesOn p' q"
    by (rule parseExpression_climbs)
  then show "climbed e" and "above q e" and "\<not> goesOn p' q"
    by simp_all
next
  show "map_option fst (ParseProgram (NewParser (New ''suna a - b - c'') False)) =
       Some (Program
         [PrintStatement \<lparr>Type = SUNA, Literal = ''suna'', Line = 1, Column = 6\<rparr>
           (Some (BinaryExpression \<lparr>Type = MINUS, Literal = ''-'', Line = 1, Column = 13\<rparr>
             (Some (BinaryExpression \<lparr>Type = MINUS, Literal = ''-'', Line = 1, Column = 9\<rparr>
               (Some (Identifier \<lparr>Type = IDENT, Literal = ''a'', Line = 1, Column = 8\<rparr> ''a''))
               ''-''
               (Some (Identifier \<lparr>Type = IDENT, Literal = ''b'', Line = 1, Column = 12\<rparr> ''b''))))
             ''-''
             (Some (Identifier \<lparr>Type = IDENT, Literal = ''c'', Line = 1, Column = 15\<rparr> ''c''))))])"
    by (simp add: lexer_eval parser_eval cong: let_weak_cong del: One_nat_def)
next
  show "map_option fst (ParseProgram (NewParser (New ''suna a + b * c'') False)) =
       Some (Program
         [PrintStatement \<lparr>Type = SUNA, Literal = ''suna'', Line = 1, Column = 6\<rparr>
           (Some (BinaryExpression \<lparr>Type = PLUS, Literal = ''+'', Line = 1, Column = 9\<rparr>
             (Some (Identifier \<lparr>Type = IDENT, Literal = ''a'', Line = 1, Column = 8\<rparr> ''a''))
             ''+''
             (Some (BinaryExpression \<lparr>Type = ASTERISK, Literal = ''*'', Line = 1, Column = 13\<rparr>
               (Some (Identifier \<lparr>Type = IDENT, Literal = ''b'', Line = 1, Column = 12\<rparr> ''b''))
               ''*''
               (Some (Identifier \<lparr>Type = IDENT, Literal = ''c'', Line = 1, Column = 15\<rparr> ''c''))))))])"
    by (simp add: lexer_eval parser_eval cong: let_weak_cong del: One_nat_def)
qed (simp_all add: getPrecedence_def LOWEST_def EQUALS_def LESSGREATER_def SUM_PREC_def
    PRODUCT_def)

theorem parseExpression_climbs_precedence_witness:
  "parseExpression 10 (NewParser (New ''a * b + c'') False) LOWEST =
     Some (Some (BinaryExpression \<lparr>Type = PLUS, Literal = ''+'', Line = 1, Column = 8\<rparr>
        (Some (BinaryExpression \<lparr>Type = ASTERISK, Literal = ''*'', Line = 1, Column = 4\<rparr>
          (Some (Identifier \<lparr>Type = IDENT, Literal = ''a'', Line = 1, Column = 3\<rparr> ''a''))
          ''*''
          (Some (Identifier \<lparr>Type = IDENT, Literal = ''b'', Line = 1, Column = 7\<rparr> ''b''))))
        ''+''
        (Some (Identifier \<lparr>Type = IDENT, Literal = ''c'', Line = 1, Column = 10\<rparr> ''c''))),
       \<lparr>stdout = [],
          lx = \<lparr>input = ''a * b + c'', position = 11, readPosition = 12, ch = CHR 0x00,
                  line = 1, column = 10\<rparr>,
          curToken = \<lparr>Type = EOF, Literal = [], Line = 1, Column = 10\<rparr>,
          peekToken = \<lparr>Type = EOF, Literal = [], Line = 1, Column = 10\<rparr>,
          Debug = False\<rparr>)
   \<and> climbed (BinaryExpression \<lparr>Type = PLUS, Literal = ''+'', Line = 1, Column = 8\<rparr>
        (Some (BinaryExpression \<lparr>Type = ASTERISK, Literal = ''*'', Line = 1, Column = 4\<rparr>
          (Some (Identifier \<lparr>Type = IDENT, Literal = ''a'', Line = 1, Column = 3\<rparr> ''a''))
          ''*''
          (Some (Identifier \<lparr>Type = IDENT, Literal = ''b'', Line = 1, Column = 7\<rparr> ''b''))))
        ''+''
        (Some (Identifier \<lparr>Type = IDENT, Literal = ''c'', Line = 1, Column = 10\<rparr> ''c'')))
   \<and> above LOWEST (BinaryExpression \<lparr>Type = PLUS, Literal = ''+'', Line = 1, Column = 8\<rparr>
        (Some (BinaryExpression \<lparr>Type = ASTERISK, Literal = ''*'', Line = 1, Column = 4\<rparr>
          (Some (Identifier \<lparr>Type = IDENT, Literal = ''a'', Line = 1, Column = 3\<rparr> ''a''))
          ''*''
          (Some (Identifier \<lparr>Type = IDENT, Literal = ''b'', Line = 1, Column = 7\<rparr> ''b''))))
        ''+''
        (Some (Identifier \<lparr>Type = IDENT, Literal = ''c'', Line = 1, Column = 10\<rparr> ''c'')))
   \<and> \<not> goesOn \<lparr>stdout = [],
          lx = \<lparr>input = ''a * b + c'', position = 11, readPosition = 12, ch = CHR 0x00,
                  line = 1, column = 10\<rparr>,
          curToken = \<lparr>Type = EOF, Literal = [], Line = 1, Column = 10\<rparr>,
          peekToken = \<lparr>Type = EOF, Literal = [], Line = 1, Column = 10\<rparr>,
          Debug = False\<rparr> LOWEST"
  (is "?parsed = Some (Some ?e, ?p') \<and> _")
proof -
  have "?parsed = Some (Some ?e, ?p')"
    by (simp add: lexer_eval parser_eval cong: let_weak_cong del: One_nat_def)
  then show ?thesis
    using parseExpression_climbs_precedence
      [of 10 "NewParser (New ''a * b + c'') False" LOWEST ?e ?p']
    by blast
qed


section \<open>The operator \<open>%\<close>\<close>

text \<open>
  C2 (code defect). The operator \<open>%\<close> does not reach the parser as an operator. The
  lexer has no case for the character: the third token of \<open>suna 7 % 3\<close> is an \<open>ILLEGAL\<close>
  token, which is not in \<open>precedences\<close> and for which \<open>isOperator\<close> is false. The
  expression of the print statement ends before it: the program is the statement
  \<open>suna 7\<close>, the tokens \<open>%\<close> and \<open>3\<close> are reported as invalid statements (each by
  \<open>parseStatement\<close> and again by \<open>ParseProgram\<close>), and the run prints 7. No
  \<open>BinaryExpression\<close> with the operator \<open>%\<close> is built, although the interpreter has a
  case for it.
\<close>

theorem percent_is_not_parsed:
  "fst (NextToken (snd (NextToken (snd (NextToken (New ''suna 7 % 3'')))))) =
     \<lparr>Type = ILLEGAL, Literal = ''%'', Line = 1, Column = 9\<rparr>
   \<and> \<not> isOperator ILLEGAL \<and> precedences ILLEGAL = None
   \<and> ParseProgram (NewParser (New ''suna 7 % 3'') False) =
       Some (Program
         [PrintStatement \<lparr>Type = SUNA, Literal = ''suna'', Line = 1, Column = 6\<rparr>
           (Some (NumberLiteral \<lparr>Type = INT_TOK, Literal = ''7'', Line = 1, Column = 8\<rparr> 7))],
         \<lparr>stdout =
            ''Error at line 1, col 9: Invalid statement, got ILLEGAL // Keep it together, genius!\<newline>''
            @ ''Error at line 1, col 9: Invalid statement, got ILLEGAL // Keep it together, genius!\<newline>''
            @ ''Error at line 1, col 11: Invalid statement, got INT // Keep it together, genius!\<newline>''
            @ ''Error at line 1, col 11: Invalid statement, got INT // Keep it together, genius!\<newline>'',
          lx = \<lparr>input = ''suna 7 % 3'', position = 12, readPosition = 13, ch = CHR 0x00,
                  line = 1, column = 11\<rparr>,
          curToken = \<lparr>Type = EOF, Literal = [], Line = 1, Column = 11\<rparr>,
          peekToken = \<lparr>Type = EOF, Literal = [], Line = 1, Column = 11\<rparr>,
          Debug = False\<rparr>)
   \<and> run ''suna 7 % 3'' =
       Some (Returned
         \<lparr>stdout =
            ''Error at line 1, col 9: Invalid statement, got ILLEGAL // Keep it together, genius!\<newline>''
            @ ''Error at line 1, col 9: Invalid statement, got ILLEGAL // Keep it together, genius!\<newline>''
            @ ''Error at line 1, col 11: Invalid statement, got INT // Keep it together, genius!\<newline>''
            @ ''Error at line 1, col 11: Invalid statement, got INT // Keep it together, genius!\<newline>''
            @ ''7\<newline>'',
          env = Map.empty\<rparr>)"
proof (intro conjI)
  show "fst (NextToken (snd (NextToken (snd (NextToken (New ''suna 7 % 3'')))))) =
     \<lparr>Type = ILLEGAL, Literal = ''%'', Line = 1, Column = 9\<rparr>"
    by (simp add: lexer_eval cong: let_weak_cong del: One_nat_def)
next
  show "\<not> isOperator ILLEGAL" by (simp add: isOperator_def)
next
  show "precedences ILLEGAL = None" by simp
next
  show "ParseProgram (NewParser (New ''suna 7 % 3'') False) =
       Some (Program
         [PrintStatement \<lparr>Type = SUNA, Literal = ''suna'', Line = 1, Column = 6\<rparr>
           (Some (NumberLiteral \<lparr>Type = INT_TOK, Literal = ''7'', Line = 1, Column = 8\<rparr> 7))],
         \<lparr>stdout =
            ''Error at line 1, col 9: Invalid statement, got ILLEGAL // Keep it together, genius!\<newline>''
            @ ''Error at line 1, col 9: Invalid statement, got ILLEGAL // Keep it together, genius!\<newline>''
            @ ''Error at line 1, col 11: Invalid statement, got INT // Keep it together, genius!\<newline>''
            @ ''Error at line 1, col 11: Invalid statement, got INT // Keep it together, genius!\<newline>'',
          lx = \<lparr>input = ''suna 7 % 3'', position = 12, readPosition = 13, ch = CHR 0x00,
                  line = 1, column = 11\<rparr>,
          curToken = \<lparr>Type = EOF, Literal = [], Line = 1, Column = 11\<rparr>,
          peekToken = \<lparr>Type = EOF, Literal = [], Line = 1, Column = 11\<rparr>,
          Debug = False\<rparr>)"
    by (simp add: lexer_eval parser_eval cong: let_weak_cong del: One_nat_def)
next
  show "run ''suna 7 % 3'' =
       Some (Returned
         \<lparr>stdout =
            ''Error at line 1, col 9: Invalid statement, got ILLEGAL // Keep it together, genius!\<newline>''
            @ ''Error at line 1, col 9: Invalid statement, got ILLEGAL // Keep it together, genius!\<newline>''
            @ ''Error at line 1, col 11: Invalid statement, got INT // Keep it together, genius!\<newline>''
            @ ''Error at line 1, col 11: Invalid statement, got INT // Keep it together, genius!\<newline>''
            @ ''7\<newline>'',
          env = Map.empty\<rparr>)"
    by (simp add: lexer_eval parser_eval interp_eval cong: let_weak_cong del: One_nat_def)
qed


section \<open>The example program\<close>

text \<open>
  The example program, written on one line and as the README lists the file
  \<open>main/hello.npp\<close>.
\<close>

definition example_program :: string where
  \<open>example_program = ''sun number = 2; suna number; sun a = "hello "; sun b = "world"; suna a+b; agar number >= 10 { suna "nice one baby!"; } magar{ suna "fuck off!"; }''\<close>

definition hello_npp :: string where
  \<open>hello_npp = ''sun number = 2;\<newline>suna number;\<newline>sun a = "hello ";\<newline>sun b = "world";\<newline>suna a+b;\<newline>agar number >= 10 {\<newline>    suna "nice one baby!";\<newline>} magar{\<newline>    suna "fuck off!";\<newline>}\<newline>''\<close>

lemma example_program_length: "length example_program = 145"
  by (simp add: example_program_def)

lemma example_program_nth:
  \<open>example_program ! n = ''sun number = 2; suna number; sun a = "hello "; sun b = "world"; suna a+b; agar number >= 10 { suna "nice one baby!"; } magar{ suna "fuck off!"; }'' ! n\<close>
  by (simp add: example_program_def)

lemma example_program_drop:
  \<open>drop n example_program = drop n ''sun number = 2; suna number; sun a = "hello "; sun b = "world"; suna a+b; agar number >= 10 { suna "nice one baby!"; } magar{ suna "fuck off!"; }''\<close>
  by (simp add: example_program_def)

lemma example_program_take:
  \<open>take n example_program = take n ''sun number = 2; suna number; sun a = "hello "; sun b = "world"; suna a+b; agar number >= 10 { suna "nice one baby!"; } magar{ suna "fuck off!"; }''\<close>
  by (simp add: example_program_def)

lemma hello_npp_length: "length hello_npp = 154"
  by (simp add: hello_npp_def)

lemma hello_npp_nth:
  \<open>hello_npp ! n = ''sun number = 2;\<newline>suna number;\<newline>sun a = "hello ";\<newline>sun b = "world";\<newline>suna a+b;\<newline>agar number >= 10 {\<newline>    suna "nice one baby!";\<newline>} magar{\<newline>    suna "fuck off!";\<newline>}\<newline>'' ! n\<close>
  by (simp add: hello_npp_def)

lemma hello_npp_drop:
  \<open>drop n hello_npp = drop n ''sun number = 2;\<newline>suna number;\<newline>sun a = "hello ";\<newline>sun b = "world";\<newline>suna a+b;\<newline>agar number >= 10 {\<newline>    suna "nice one baby!";\<newline>} magar{\<newline>    suna "fuck off!";\<newline>}\<newline>''\<close>
  by (simp add: hello_npp_def)

lemma hello_npp_take:
  \<open>take n hello_npp = take n ''sun number = 2;\<newline>suna number;\<newline>sun a = "hello ";\<newline>sun b = "world";\<newline>suna a+b;\<newline>agar number >= 10 {\<newline>    suna "nice one baby!";\<newline>} magar{\<newline>    suna "fuck off!";\<newline>}\<newline>''\<close>
  by (simp add: hello_npp_def)

lemmas example_eval = example_program_length example_program_nth example_program_drop
  example_program_take hello_npp_length hello_npp_nth hello_npp_drop hello_npp_take

text \<open>
  C5. The run of the example program returns, and what it has written is the three
  lines \<open>2\<close>, \<open>hello world\<close>, \<open>fuck off!\<close> and nothing else: diagnostics of the parser and
  of the interpreter go to the same output and there are none.
\<close>

theorem example_program_output:
  "run example_program =
     Some (Returned
       \<lparr>stdout = ''2\<newline>hello world\<newline>fuck off!\<newline>'',
          env = [''number'' \<mapsto> IntObject 2, ''a'' \<mapsto> StringObject ''hello '',
                 ''b'' \<mapsto> StringObject ''world'']\<rparr>)
   \<and> run hello_npp =
     Some (Returned
       \<lparr>stdout = ''2\<newline>hello world\<newline>fuck off!\<newline>'',
          env = [''number'' \<mapsto> IntObject 2, ''a'' \<mapsto> StringObject ''hello '',
                 ''b'' \<mapsto> StringObject ''world'']\<rparr>)"
proof (intro conjI)
  show "run example_program =
     Some (Returned
       \<lparr>stdout = ''2\<newline>hello world\<newline>fuck off!\<newline>'',
          env = [''number'' \<mapsto> IntObject 2, ''a'' \<mapsto> StringObject ''hello '',
                 ''b'' \<mapsto> StringObject ''world'']\<rparr>)"
    by (simp add: lexer_eval parser_eval interp_eval example_eval
        cong: let_weak_cong del: One_nat_def)
next
  show "run hello_npp =
     Some (Returned
       \<lparr>stdout = ''2\<newline>hello world\<newline>fuck off!\<newline>'',
          env = [''number'' \<mapsto> IntObject 2, ''a'' \<mapsto> StringObject ''hello '',
                 ''b'' \<mapsto> StringObject ''world'']\<rparr>)"
    by (simp add: lexer_eval parser_eval interp_eval example_eval
        cong: let_weak_cong del: One_nat_def)
qed

end
